theory Spec2Isabelle
  imports Complex_Main "HOL-Library.AList"
begin

section \<open>Floating-point values\<close>

text \<open>
  The program computes with Python floats inside pandas columns. A float is modelled by
  its IEEE 754 class: a finite number, negative zero, an infinity or NaN. Finite doubles
  are idealised as real numbers: an arithmetic operation on finite values is exact (no
  rounding, no overflow, no underflow), while the IEEE 754 rules for signed zeros,
  infinities and NaN are the ones numpy applies. The conversions of Python ints and
  strings to floats keep the range of doubles. \<open>Fin 0\<close> is positive zero.

  pandas marks a missing cell of a numeric column by NaN, and treats \<open>None\<close> in a column
  as missing in the same way; both are the single absent value \<open>NaN\<close> here.
\<close>

datatype fval = Fin real | NegZero | PInf | NInf | NaN

definition absent :: "fval \<Rightarrow> bool" where
  "absent v = (v = NaN)"

definition is_inf :: "fval \<Rightarrow> bool" where
  "is_inf v = (v = PInf \<or> v = NInf)"

definition is_zero :: "fval \<Rightarrow> bool" where
  "is_zero v = (v = Fin 0 \<or> v = NegZero)"

fun sign_bit :: "fval \<Rightarrow> bool" where
  "sign_bit (Fin r) = (r < 0)"
| "sign_bit NegZero = True"
| "sign_bit PInf = False"
| "sign_bit NInf = True"
| "sign_bit NaN = False"

fun mag :: "fval \<Rightarrow> real" where
  "mag (Fin r) = r"
| "mag v = 0"

definition inf_of :: "bool \<Rightarrow> fval" where
  "inf_of neg = (if neg then NInf else PInf)"

definition zero_of :: "bool \<Rightarrow> fval" where
  "zero_of neg = (if neg then NegZero else Fin 0)"

definition fdiv :: "fval \<Rightarrow> fval \<Rightarrow> fval" where
  "fdiv a b =
     (if a = NaN \<or> b = NaN then NaN
      else if is_inf a \<and> is_inf b then NaN
      else if is_zero a \<and> is_zero b then NaN
      else if is_inf a \<or> is_zero b then inf_of (sign_bit a \<noteq> sign_bit b)
      else if is_inf b \<or> is_zero a then zero_of (sign_bit a \<noteq> sign_bit b)
      else Fin (mag a / mag b))"

definition fmul :: "fval \<Rightarrow> fval \<Rightarrow> fval" where
  "fmul a b =
     (if a = NaN \<or> b = NaN then NaN
      else if (is_inf a \<and> is_zero b) \<or> (is_zero a \<and> is_inf b) then NaN
      else if is_inf a \<or> is_inf b then inf_of (sign_bit a \<noteq> sign_bit b)
      else if is_zero a \<or> is_zero b then zero_of (sign_bit a \<noteq> sign_bit b)
      else Fin (mag a * mag b))"

definition fadd :: "fval \<Rightarrow> fval \<Rightarrow> fval" where
  "fadd a b =
     (if a = NaN \<or> b = NaN then NaN
      else if is_inf a \<and> is_inf b then (if a = b then a else NaN)
      else if is_inf a then a
      else if is_inf b then b
      else if a = NegZero \<and> b = NegZero then NegZero
      else Fin (mag a + mag b))"

fun fneg :: "fval \<Rightarrow> fval" where
  "fneg (Fin r) = (if r = 0 then NegZero else Fin (- r))"
| "fneg NegZero = Fin 0"
| "fneg PInf = NInf"
| "fneg NInf = PInf"
| "fneg NaN = NaN"

definition fsub :: "fval \<Rightarrow> fval \<Rightarrow> fval" where
  "fsub a b = fadd a (fneg b)"

definition feq :: "fval \<Rightarrow> fval \<Rightarrow> bool" where
  \<comment> \<open>The comparison \<open>==\<close> of floats: NaN equals nothing, the two zeros are equal.\<close>
  "feq a b = (a \<noteq> NaN \<and> b \<noteq> NaN \<and> (a = b \<or> (is_zero a \<and> is_zero b)))"

section \<open>Series and per-country tables\<close>

text \<open>
  A \<open>pd.Series\<close> indexed by year is the list of its (year, value) entries in index order.
  Every series the program builds comes from a Python dict, so its years are distinct;
  the tables built from them have distinct years too, and the model is meant for such
  series and tables only. A per-country \<open>DataFrame\<close> has the three columns
  \<open>market_cap\<close>, \<open>gdp\<close> and \<open>buffett\<close>.

  Every column is modelled as a numeric (float64) column. pandas keeps a series that
  holds no number at all (no record, or \<open>None\<close> for every year) as a column of Python
  objects, on which arithmetic runs Python's own operators. The results agree with the
  numeric ones modelled here, with one exception that the model leaves out: dividing
  such a market-cap column by a GDP column that holds a zero at a year the market-cap
  series lacks can raise ZeroDivisionError, where the model gives an absent ratio.
\<close>

type_synonym series = "(int \<times> fval) list"

record row =
  market_cap :: fval
  gdp :: fval
  buffett :: fval

type_synonym frame = "(int \<times> row) list"

definition reindex :: "series \<Rightarrow> int \<Rightarrow> fval" where
  \<comment> \<open>Alignment of a series on a label: the value there, NaN where the series has no such label.\<close>
  "reindex s y = (case map_of s y of Some v \<Rightarrow> v | None \<Rightarrow> NaN)"

definition union_index :: "int list \<Rightarrow> int list \<Rightarrow> int list" where
  \<comment> \<open>The outer join of two indexes; pandas returns the union of integer labels sorted.\<close>
  "union_index a b = sort (remdups (a @ b))"

definition country_frame :: "series \<Rightarrow> series \<Rightarrow> frame" where
  \<comment> \<open>\<open>fetch_for_countries\<close>, lines 74 to 76:
      \<open>df = pd.DataFrame({"market_cap": mc, "gdp": gdp})\<close>,
      \<open>df["buffett"] = df["market_cap"] / df["gdp"]\<close>.\<close>
  "country_frame mc g =
     map (\<lambda>y. (y, \<lparr>market_cap = reindex mc y, gdp = reindex g y,
                    buffett = fdiv (reindex mc y) (reindex g y)\<rparr>))
       (union_index (map fst mc) (map fst g))"

section \<open>Python values and conversions\<close>

text \<open>
  What \<open>resp.json()\<close> returns: the parsed JSON document as Python objects. A JSON number
  without fraction or exponent is a Python \<open>int\<close>, any other number a \<open>float\<close>
  (Python's parser also reads the literals \<open>NaN\<close> and \<open>Infinity\<close>). An object is the
  list of its entries; the keys of a parsed object are distinct, and \<open>map_of\<close> looks one up.
  Strings are ASCII: a Python string with a character beyond ASCII is outside the
  model (Python's \<open>int\<close> and \<open>float\<close> also read whitespace and decimal digits beyond
  ASCII, which \<open>int_of_str\<close> and \<open>float_of_str\<close> below do not).
\<close>

datatype json =
    JNull
  | JBool bool
  | JInt int
  | JFloat fval
  | JStr string
  | JArr "json list"
  | JObj "(string \<times> json) list"

datatype error =
    RequestException
  | HTTPError nat
  | JSONDecodeError
  | KeyError string
  | TypeError
  | ValueError string
  | OverflowError

definition is_space :: "char \<Rightarrow> bool" where
  "is_space c = (c \<in> set [CHR '' '', CHR 0x09, CHR 0x0A, CHR 0x0B, CHR 0x0C, CHR 0x0D])"

definition is_digit :: "char \<Rightarrow> bool" where
  "is_digit c = (c \<in> set ''0123456789'')"

definition strip :: "string \<Rightarrow> string" where
  "strip s = rev (dropWhile is_space (rev (dropWhile is_space s)))"

definition split_sign :: "string \<Rightarrow> bool \<times> string" where
  "split_sign s =
     (case s of
        [] \<Rightarrow> (False, [])
      | c # r \<Rightarrow> if c = CHR ''-'' then (True, r) else if c = CHR ''+'' then (False, r)
                 else (False, s))"

definition nat_of_digits :: "string \<Rightarrow> nat" where
  "nat_of_digits ds = foldl (\<lambda>a c. 10 * a + (of_char c - 48)) 0 ds"

fun digit_run :: "string \<Rightarrow> string option" where
  \<comment> \<open>Decimal digits, single underscores allowed between two digits; the digits alone.\<close>
  "digit_run [] = None"
| "digit_run [c] = (if is_digit c then Some [c] else None)"
| "digit_run (c # d # cs) =
     (if is_digit c
      then (if d = CHR ''_'' then map_option ((#) c) (digit_run cs)
            else map_option ((#) c) (digit_run (d # cs)))
      else None)"

definition int_of_str :: "string \<Rightarrow> int option" where
  \<comment> \<open>\<open>int(s)\<close> for a string: surrounding whitespace, an optional sign, decimal digits.
      Python refuses a literal of more than 4300 digits (its default limit).\<close>
  "int_of_str s =
     (case split_sign (strip s) of
        (neg, body) \<Rightarrow>
          (case digit_run body of
             None \<Rightarrow> None
           | Some ds \<Rightarrow>
               if 4300 < length ds then None
               else Some (if neg then - int (nat_of_digits ds) else int (nat_of_digits ds))))"

definition trunc :: "real \<Rightarrow> int" where
  "trunc r = (if 0 \<le> r then \<lfloor>r\<rfloor> else \<lceil>r\<rceil>)"

fun py_int :: "json \<Rightarrow> error + int" where
  "py_int (JInt i) = Inr i"
| "py_int (JBool b) = Inr (if b then 1 else 0)"
| "py_int (JFloat (Fin r)) = Inr (trunc r)"
| "py_int (JFloat NegZero) = Inr 0"
| "py_int (JFloat NaN) = Inl (ValueError ''cannot convert float NaN to integer'')"
| "py_int (JFloat v) = Inl OverflowError"
| "py_int (JStr s) =
     (case int_of_str s of
        None \<Rightarrow> Inl (ValueError ''invalid literal for int() with base 10'')
      | Some i \<Rightarrow> Inr i)"
| "py_int v = Inl TypeError"

fun del_underscores :: "char \<Rightarrow> string \<Rightarrow> string option" where
  \<comment> \<open>\<open>float(s)\<close> accepts an underscore only between two digits; the first argument is the
      previous character.\<close>
  "del_underscores prev [] = (if prev = CHR ''_'' then None else Some [])"
| "del_underscores prev (c # cs) =
     (if c = CHR ''_'' then (if is_digit prev then del_underscores c cs else None)
      else if prev = CHR ''_'' \<and> \<not> is_digit c then None
      else map_option ((#) c) (del_underscores c cs))"

definition lower :: "char \<Rightarrow> char" where
  "lower c = (if c \<in> set ''ABCDEFGHIJKLMNOPQRSTUVWXYZ''
              then char_of (of_char c + (32::nat)) else c)"

definition pow10 :: "int \<Rightarrow> real" where
  "pow10 k = (if 0 \<le> k then 10 ^ nat k else 1 / 10 ^ nat (- k))"

definition dbl_overflow :: real where
  \<comment> \<open>The least magnitude that rounds beyond the largest finite double.\<close>
  "dbl_overflow = 2 ^ 1024 - 2 ^ 970"

definition dbl_underflow :: real where
  \<comment> \<open>The greatest magnitude that rounds to zero: half the least positive double.\<close>
  "dbl_underflow = 1 / 2 ^ 1075"

definition decimal_value :: "bool \<Rightarrow> string \<Rightarrow> string \<Rightarrow> int \<Rightarrow> fval" where
  \<comment> \<open>The float written with integer digits \<open>ip\<close>, fraction digits \<open>fp\<close> and exponent \<open>e\<close>:
      a zero when the number is too small for a double, an infinity when it is too large.\<close>
  "decimal_value neg ip fp e =
     (let v = real (nat_of_digits (ip @ fp)) * pow10 (e - int (length fp))
      in if v \<le> dbl_underflow then zero_of neg
         else if dbl_overflow \<le> v then inf_of neg
         else Fin (if neg then - v else v))"

definition float_of_str :: "string \<Rightarrow> fval option" where
  \<comment> \<open>\<open>float(s)\<close> for a string: surrounding whitespace, an optional sign, then \<open>inf\<close>,
      \<open>infinity\<close> or \<open>nan\<close> in any case, or a decimal number with an optional exponent.\<close>
  "float_of_str s =
     (case del_underscores (CHR 0x00) (strip s) of
        None \<Rightarrow> None
      | Some t \<Rightarrow>
          (case split_sign t of
             (neg, u) \<Rightarrow>
               if map lower u = ''inf'' \<or> map lower u = ''infinity'' then Some (inf_of neg)
               else if map lower u = ''nan'' then Some NaN
               else
                 (let ip = takeWhile is_digit u;
                      r1 = dropWhile is_digit u;
                      dot = (r1 \<noteq> [] \<and> hd r1 = CHR ''.'');
                      fp = (if dot then takeWhile is_digit (tl r1) else []);
                      r2 = (if dot then dropWhile is_digit (tl r1) else r1)
                  in if ip = [] \<and> fp = [] then None
                     else if r2 = [] then Some (decimal_value neg ip fp 0)
                     else if hd r2 = CHR ''e'' \<or> hd r2 = CHR ''E''
                     then (case split_sign (tl r2) of
                             (eneg, ed) \<Rightarrow>
                               if ed \<noteq> [] \<and> list_all is_digit ed
                               then Some (decimal_value neg ip fp
                                      (if eneg then - int (nat_of_digits ed)
                                       else int (nat_of_digits ed)))
                               else None)
                     else None)))"

fun py_float :: "json \<Rightarrow> error + fval" where
  \<comment> \<open>\<open>float(v)\<close>; an int too large for a double raises OverflowError.\<close>
  "py_float (JInt i) =
     (if dbl_overflow \<le> \<bar>real_of_int i\<bar> then Inl OverflowError else Inr (Fin (real_of_int i)))"
| "py_float (JBool b) = Inr (Fin (if b then 1 else 0))"
| "py_float (JFloat v) = Inr v"
| "py_float (JStr s) =
     (case float_of_str s of
        None \<Rightarrow> Inl (ValueError ''could not convert string to float'')
      | Some v \<Rightarrow> Inr v)"
| "py_float v = Inl TypeError"

fun subscript :: "json \<Rightarrow> string \<Rightarrow> error + json" where
  \<comment> \<open>\<open>item[key]\<close> with a string key: a lookup in a dict, a TypeError on anything else.\<close>
  "subscript (JObj kvs) k = (case map_of kvs k of None \<Rightarrow> Inl (KeyError k) | Some v \<Rightarrow> Inr v)"
| "subscript v k = Inl TypeError"

fun py_iter :: "json \<Rightarrow> error + json list" where
  \<comment> \<open>What \<open>for item in records\<close> visits: the elements of a list, the keys of a dict, the
      characters of a string; other values are not iterable.\<close>
  "py_iter (JArr xs) = Inr xs"
| "py_iter (JObj kvs) = Inr (map (\<lambda>kv. JStr (fst kv)) kvs)"
| "py_iter (JStr s) = Inr (map (\<lambda>c. JStr [c]) s)"
| "py_iter v = Inl TypeError"

section \<open>The World Bank service and the trace of effects\<close>

text \<open>
  The remote service is a parameter: it answers a request, and its answer may depend on
  everything the program has done so far. Every \<open>requests.get\<close> and every \<open>time.sleep\<close>
  is recorded in a trace, so the number of network calls made before an error is a
  property of the returned trace.
\<close>

record request =
  url :: string
  date :: "int \<times> int"
  format :: string
  per_page :: nat

datatype body = NotJson | Json json

datatype http_result = ConnectionFailed | Response nat body

datatype event = Get request | Sleep real

type_synonym trace = "event list"

record env =
  net :: "trace \<Rightarrow> request \<Rightarrow> http_result"
  now_year :: int

definition WB_API :: string where
  "WB_API = ''https://api.worldbank.org/v2''"

definition TOP10_COUNTRIES :: "(string \<times> string) list" where
  "TOP10_COUNTRIES =
     [(''United States'', ''USA''), (''China'', ''CHN''), (''Japan'', ''JPN''),
      (''India'', ''IND''), (''United Kingdom'', ''GBR''), (''France'', ''FRA''),
      (''Canada'', ''CAN''), (''Germany'', ''DEU''), (''Switzerland'', ''CHE''),
      (''Australia'', ''AUS'')]"

definition MARKETCAP_IND :: string where
  "MARKETCAP_IND = ''CM.MKT.LCAP.CD''"

definition GDP_IND :: string where
  "GDP_IND = ''NY.GDP.MKTP.CD''"

section \<open>Fetching one indicator\<close>

definition record_year :: "json \<Rightarrow> error + int" where
  \<comment> \<open>Line 52: \<open>year = int(item["date"])\<close>\<close>
  "record_year item =
     (case subscript item ''date'' of Inl e \<Rightarrow> Inl e | Inr d \<Rightarrow> py_int d)"

definition record_value :: "json \<Rightarrow> error + fval" where
  \<comment> \<open>Lines 53 and 54: \<open>val = item["value"]\<close>, then \<open>float(val) if val is not None else None\<close>\<close>
  "record_value item =
     (case subscript item ''value'' of
        Inl e \<Rightarrow> Inl e
      | Inr val \<Rightarrow> if val \<noteq> JNull then py_float val else Inr NaN)"

fun collect_values :: "json list \<Rightarrow> series \<Rightarrow> error + series" where
  \<comment> \<open>The loop of lines 51 to 54 over the records, \<open>values\<close> being the dict built so far.\<close>
  "collect_values [] values = Inr values"
| "collect_values (item # items) values =
     (case record_year item of
        Inl e \<Rightarrow> Inl e
      | Inr year \<Rightarrow>
          (case record_value item of
             Inl e \<Rightarrow> Inl e
           | Inr v \<Rightarrow> collect_values items (AList.update year v values)))"

definition in_int64 :: "int \<Rightarrow> bool" where
  \<comment> \<open>The labels that \<open>astype(int)\<close> can hold: signed 64-bit integers.\<close>
  "in_int64 y = (- (2 ^ 63) \<le> y \<and> y < 2 ^ 63)"

definition series_of_response :: "json \<Rightarrow> error + series" where
  \<comment> \<open>Lines 47 to 58. \<open>s.index.astype(int)\<close> overflows on a year outside 64 bits.\<close>
  "series_of_response data =
     (case data of
        JArr (meta # records # rest) \<Rightarrow>
          (case py_iter records of
             Inl e \<Rightarrow> Inl e
           | Inr items \<Rightarrow>
               (case collect_values items [] of
                  Inl e \<Rightarrow> Inl e
                | Inr values \<Rightarrow>
                    if list_all (\<lambda>yv. in_int64 (fst yv)) values
                    then Inr (sort_key fst values)
                    else Inl OverflowError))
      | _ \<Rightarrow> Inr [])"

definition end_of :: "env \<Rightarrow> int option \<Rightarrow> int" where
  \<comment> \<open>Lines 38 and 39: the end year, the current year when none is given.\<close>
  "end_of ev end_year = (case end_year of None \<Rightarrow> now_year ev | Some y \<Rightarrow> y)"

definition indicator_request :: "string \<Rightarrow> string \<Rightarrow> int \<Rightarrow> int \<Rightarrow> request" where
  "indicator_request country_iso3 indicator start_year end_year =
     \<lparr>url = WB_API @ ''/country/'' @ country_iso3 @ ''/indicator/'' @ indicator,
      date = (start_year, end_year), format = ''json'', per_page = 1000\<rparr>"

definition fetch_indicator_for_country ::
  "env \<Rightarrow> string \<Rightarrow> string \<Rightarrow> int \<Rightarrow> int option \<Rightarrow> trace \<Rightarrow> (error + series) \<times> trace" where
  "fetch_indicator_for_country ev country_iso3 indicator start_year end_year tr =
     (let end_y = end_of ev end_year;
          req = indicator_request country_iso3 indicator start_year end_y;
          tr' = tr @ [Get req]
      in case net ev tr req of
           ConnectionFailed \<Rightarrow> (Inl RequestException, tr')
         | Response status b \<Rightarrow>
             if 400 \<le> status \<and> status < 600 then (Inl (HTTPError status), tr')
             else (case b of
                     NotJson \<Rightarrow> (Inl JSONDecodeError, tr')
                   | Json data \<Rightarrow> (series_of_response data, tr')))"

section \<open>Fetching a list of countries\<close>

definition country_error :: "string \<Rightarrow> error" where
  \<comment> \<open>The ValueError of line 70.\<close>
  "country_error name =
     ValueError (''Country '' @ [CHR 0x27] @ name @ [CHR 0x27] @ '' not in TOP10_COUNTRIES mapping.'')"

definition sleep :: "real \<Rightarrow> trace \<Rightarrow> (error + unit) \<times> trace" where
  \<comment> \<open>\<open>time.sleep\<close> refuses a negative length.\<close>
  "sleep pause tr =
     (if pause < 0 then (Inl (ValueError ''sleep length must be non-negative''), tr)
      else (Inr (), tr @ [Sleep pause]))"

fun fetch_loop ::
  "env \<Rightarrow> string list \<Rightarrow> int \<Rightarrow> int option \<Rightarrow> real \<Rightarrow> (string \<times> frame) list \<Rightarrow> trace
     \<Rightarrow> (error + (string \<times> frame) list) \<times> trace" where
  \<comment> \<open>The loop of lines 67 to 78, \<open>result\<close> being the dict built so far.\<close>
  "fetch_loop ev [] start_year end_year pause result tr = (Inr result, tr)"
| "fetch_loop ev (name # names) start_year end_year pause result tr =
     (case map_of TOP10_COUNTRIES name of
        None \<Rightarrow> (Inl (country_error name), tr)
      | Some iso3 \<Rightarrow>
          (case fetch_indicator_for_country ev iso3 MARKETCAP_IND start_year end_year tr of
             (Inl e, tr1) \<Rightarrow> (Inl e, tr1)
           | (Inr mc, tr1) \<Rightarrow>
               (case fetch_indicator_for_country ev iso3 GDP_IND start_year end_year tr1 of
                  (Inl e, tr2) \<Rightarrow> (Inl e, tr2)
                | (Inr g, tr2) \<Rightarrow>
                    (case sleep pause tr2 of
                       (Inl e, tr3) \<Rightarrow> (Inl e, tr3)
                     | (Inr u, tr3) \<Rightarrow>
                         fetch_loop ev names start_year end_year pause
                           (AList.update name (country_frame mc g) result) tr3))))"

definition fetch_for_countries ::
  "env \<Rightarrow> string list \<Rightarrow> int \<Rightarrow> int option \<Rightarrow> real \<Rightarrow> trace
     \<Rightarrow> (error + (string \<times> frame) list) \<times> trace" where
  "fetch_for_countries ev countries start_year end_year pause tr =
     fetch_loop ev countries start_year end_year pause [] tr"

definition net_calls :: "trace \<Rightarrow> nat" where
  \<comment> \<open>The number of network calls recorded in a trace.\<close>
  "net_calls tr = length (filter (\<lambda>e. case e of Get r \<Rightarrow> True | Sleep p \<Rightarrow> False) tr)"

definition service_answering :: "json \<Rightarrow> env" where
  \<comment> \<open>A service that answers every request with status 200 and the same document, in the
      year 2024; used to run the program on concrete responses.\<close>
  "service_answering doc = \<lparr>net = (\<lambda>tr req. Response 200 (Json doc)), now_year = 2024\<rparr>"

definition ends_with :: "string \<Rightarrow> string \<Rightarrow> bool" where
  "ends_with s suffix = (drop (length s - length suffix) s = suffix)"

definition service_by_indicator :: "json \<Rightarrow> json \<Rightarrow> env" where
  \<comment> \<open>A service that answers a request for the market capitalisation with the first
      document and any other request with the second, always with status 200.\<close>
  "service_by_indicator mc_doc gdp_doc =
     \<lparr>net = (\<lambda>tr req. Response 200
               (Json (if ends_with (url req) MARKETCAP_IND then mc_doc else gdp_doc))),
      now_year = 2024\<rparr>"

section \<open>The response the service is expected to give\<close>

text \<open>
  The API contract: the records are objects with a \<open>date\<close>, a string that reads as the
  year, and a \<open>value\<close>, a number or null. A record is malformed, in the words of the
  claims, when it lacks one of the two keys or its date string does not read as an
  integer.
\<close>

fun is_number :: "json \<Rightarrow> bool" where
  \<comment> \<open>A JSON number that a double can hold.\<close>
  "is_number (JInt i) = (\<bar>real_of_int i\<bar> < dbl_overflow)"
| "is_number (JFloat v) = True"
| "is_number v = False"

definition well_formed_record :: "json \<Rightarrow> bool" where
  "well_formed_record item =
     (case item of
        JObj kvs \<Rightarrow>
          (case map_of kvs ''date'' of
             Some (JStr d) \<Rightarrow> (case int_of_str d of Some y \<Rightarrow> in_int64 y | None \<Rightarrow> False)
           | _ \<Rightarrow> False) \<and>
          (case map_of kvs ''value'' of
             Some v \<Rightarrow> v = JNull \<or> is_number v
           | None \<Rightarrow> False)
      | _ \<Rightarrow> False)"

definition malformed_record :: "json \<Rightarrow> bool" where
  "malformed_record item =
     (case item of
        JObj kvs \<Rightarrow>
          map_of kvs ''date'' = None \<or> map_of kvs ''value'' = None \<or>
          (case map_of kvs ''date'' of Some (JStr d) \<Rightarrow> int_of_str d = None | _ \<Rightarrow> False)
      | _ \<Rightarrow> False)"

section \<open>Combining the countries\<close>

text \<open>
  The combined \<open>DataFrame\<close>: the row labels (years) and, per country, a column of cells
  aligned with the row labels.
\<close>

record table =
  index :: "int list"
  columns :: "(string \<times> fval list) list"

definition percent :: "frame \<Rightarrow> series" where
  \<comment> \<open>\<open>df["buffett"] * 100.0\<close>\<close>
  "percent df = map (\<lambda>yr. (fst yr, fmul (buffett (snd yr)) (Fin 100))) df"

definition combine_countries_to_df :: "(string \<times> frame) list \<Rightarrow> table" where
  "combine_countries_to_df country_data =
     (let frames = map (\<lambda>nd. (fst nd, percent (snd nd))) country_data
      in if frames = [] then \<lparr>index = [], columns = []\<rparr>
         else
           (let idx = sort (remdups (concat (map (\<lambda>ns. map fst (snd ns)) frames)))
            in \<lparr>index = idx,
                columns = map (\<lambda>ns. (fst ns, map (reindex (snd ns)) idx)) frames\<rparr>))"

definition cell :: "table \<Rightarrow> string \<Rightarrow> int \<Rightarrow> fval option" where
  \<comment> \<open>The cell of a table in the column of a country at a year; None when the table has no
      such column or no such row.\<close>
  "cell t name y =
     (case map_of (columns t) name of
        None \<Rightarrow> None
      | Some c \<Rightarrow> map_of (zip (index t) c) y)"

section \<open>Missing-year handling\<close>

fun ffill_from :: "fval \<Rightarrow> fval list \<Rightarrow> fval list" where
  "ffill_from lastv [] = []"
| "ffill_from lastv (v # vs) =
     (if v = NaN then lastv # ffill_from lastv vs else v # ffill_from v vs)"

definition ffill :: "fval list \<Rightarrow> fval list" where
  "ffill vs = ffill_from NaN vs"

text \<open>
  \<open>interpolate(method="linear")\<close> with the defaults of pandas (\<open>limit_direction="forward"\<close>,
  no \<open>limit_area\<close>), on numeric columns: the rows count as equally spaced, the index is
  ignored. Per column, \<open>numpy.interp\<close> is evaluated at the positions of the missing
  cells over the positions of the valid cells, which uses the nearest valid cell on
  each side and the end value beyond the last valid cell; the cells before the first
  valid one are reset to NaN. A column with no valid cell is left as it is.
\<close>

definition prev_valid :: "fval list \<Rightarrow> nat \<Rightarrow> nat option" where
  "prev_valid xs i =
     (case filter (\<lambda>j. xs ! j \<noteq> NaN) (rev [0..<i]) of [] \<Rightarrow> None | j # js \<Rightarrow> Some j)"

definition next_valid :: "fval list \<Rightarrow> nat \<Rightarrow> nat option" where
  "next_valid xs i =
     (case filter (\<lambda>j. xs ! j \<noteq> NaN) [Suc i..<length xs] of [] \<Rightarrow> None | j # js \<Rightarrow> Some j)"

definition np_interp_point :: "nat \<Rightarrow> fval \<Rightarrow> nat \<Rightarrow> fval \<Rightarrow> nat \<Rightarrow> fval" where
  \<comment> \<open>\<open>numpy.interp\<close> at \<open>x\<close> strictly between the neighbouring points \<open>(x0, y0)\<close> and
      \<open>(x1, y1)\<close>; a NaN from one end is retried from the other end.\<close>
  "np_interp_point x0 y0 x1 y1 x =
     (let slope = fdiv (fsub y1 y0) (Fin (real x1 - real x0));
          r = fadd (fmul slope (Fin (real x - real x0))) y0
      in if r \<noteq> NaN then r
         else (let r2 = fadd (fmul slope (Fin (real x - real x1))) y1
               in if r2 = NaN \<and> feq y0 y1 then y0 else r2))"

definition interp_at :: "fval list \<Rightarrow> nat \<Rightarrow> fval" where
  "interp_at xs i =
     (if xs ! i \<noteq> NaN then xs ! i
      else (case prev_valid xs i of
              None \<Rightarrow> NaN
            | Some j \<Rightarrow>
                (case next_valid xs i of
                   None \<Rightarrow> xs ! j
                 | Some k \<Rightarrow> np_interp_point j (xs ! j) k (xs ! k) i)))"

definition interpolate_linear :: "fval list \<Rightarrow> fval list" where
  "interpolate_linear xs = map (interp_at xs) [0..<length xs]"

definition handle_missing :: "string \<Rightarrow> table \<Rightarrow> table" where
  \<comment> \<open>\<open>Home.py\<close>, lines 53 to 56.\<close>
  "handle_missing interpolate_method combined =
     (if interpolate_method = ''Forward-fill''
      then combined\<lparr>columns := map (\<lambda>nc. (fst nc, ffill (snd nc))) (columns combined)\<rparr>
      else if interpolate_method = ''Interpolate (linear)''
      then combined\<lparr>columns := map (\<lambda>nc. (fst nc, interpolate_linear (snd nc))) (columns combined)\<rparr>
      else combined)"

section \<open>Properties of the per-country table\<close>

lemma fdiv_present_iff:
  "fdiv a b \<noteq> NaN \<longleftrightarrow>
     a \<noteq> NaN \<and> b \<noteq> NaN \<and> \<not> (is_zero a \<and> is_zero b) \<and> \<not> (is_inf a \<and> is_inf b)"
  by (simp add: fdiv_def inf_of_def zero_of_def)

lemma fdiv_by_zero_inf:
  "is_zero b \<Longrightarrow> a \<noteq> NaN \<Longrightarrow> \<not> is_zero a \<Longrightarrow> is_inf (fdiv a b)"
  by (auto simp: fdiv_def is_zero_def is_inf_def inf_of_def)

lemma reindex_present_iff:
  "\<not> absent (reindex s y) \<longleftrightarrow> (\<exists>v. map_of s y = Some v \<and> v \<noteq> NaN)"
  by (simp add: reindex_def absent_def split: option.splits)

lemma set_union_index: "set (union_index a b) = set a \<union> set b"
  by (simp add: union_index_def)

lemma country_frame_years:
  "set (map fst (country_frame mc g)) = fst ` set mc \<union> fst ` set g"
  by (simp add: country_frame_def set_union_index image_Un comp_def)

lemma country_frame_sorted:
  "sorted (map fst (country_frame mc g)) \<and> distinct (map fst (country_frame mc g))"
  by (simp add: country_frame_def union_index_def comp_def)

section \<open>Properties of the fetcher\<close>

lemmas parse_eval =
  series_of_response_def record_year_def record_value_def int_of_str_def strip_def
  is_space_def split_sign_def is_digit_def nat_of_digits_def in_int64_def dbl_overflow_def

lemmas fetch_eval =
  fetch_indicator_for_country_def service_answering_def end_of_def Let_def parse_eval

lemmas loop_eval =
  fetch_for_countries_def TOP10_COUNTRIES_def sleep_def country_frame_def union_index_def
  fetch_eval

lemma fetch_trace:
  "snd (fetch_indicator_for_country ev c i s e tr) =
     tr @ [Get (indicator_request c i s (end_of ev e))]"
  by (simp add: fetch_indicator_for_country_def Let_def split: http_result.splits body.splits)

lemma fetch_ok:
  assumes "net ev tr (indicator_request c i s (end_of ev e)) = Response status (Json data)"
    and "\<not> (400 \<le> status \<and> status < 600)"
  shows "fst (fetch_indicator_for_country ev c i s e tr) = series_of_response data"
  using assms by (auto simp add: fetch_indicator_for_country_def Let_def)

lemma fetch_cases:
  obtains (ok) ser where "fetch_indicator_for_country ev c i s e tr
              = (Inr ser, tr @ [Get (indicator_request c i s (end_of ev e))])"
        | (err) er where "fetch_indicator_for_country ev c i s e tr
              = (Inl er, tr @ [Get (indicator_request c i s (end_of ev e))])"
proof (cases "fst (fetch_indicator_for_country ev c i s e tr)")
  case (Inl er)
  with fetch_trace [of ev c i s e tr] err [of er] show ?thesis by (metis prod.collapse)
next
  case (Inr ser)
  with fetch_trace [of ev c i s e tr] ok [of ser] show ?thesis by (metis prod.collapse)
qed

text \<open>
  Claim C4. When the service answers with a JSON document whose top level is not an
  array of at least two elements (a single-element array, an object, a number, null),
  the fetch returns the empty series and raises nothing; the one request it made is in
  the trace.
\<close>

theorem malformed_response_empty_series:
  assumes "net ev tr (indicator_request c i s (end_of ev e)) = Response status (Json data)"
    and "\<not> (400 \<le> status \<and> status < 600)"
    and "\<not> (\<exists>xs. data = JArr xs \<and> 2 \<le> length xs)"
  shows "fetch_indicator_for_country ev c i s e tr =
           (Inr [], tr @ [Get (indicator_request c i s (end_of ev e))])"
proof -
  have "series_of_response data = Inr []"
    using assms(3) by (auto simp: series_of_response_def split: json.splits list.splits)
  with fetch_ok [OF assms(1,2)] fetch_trace [of ev c i s e tr] show ?thesis
    by (metis prod.collapse)
qed

theorem malformed_response_empty_series_witness:
  "net (service_answering (JArr [JObj [(''message'', JStr ''no data'')]])) []
      (indicator_request ''JPN'' GDP_IND 1990
         (end_of (service_answering (JArr [JObj [(''message'', JStr ''no data'')]])) (Some 2020)))
     = Response 200 (Json (JArr [JObj [(''message'', JStr ''no data'')]])) \<and>
   \<not> (400 \<le> (200::nat) \<and> (200::nat) < 600) \<and>
   \<not> (\<exists>xs. JArr [JObj [(''message'', JStr ''no data'')]] = JArr xs \<and> 2 \<le> length xs) \<and>
   fetch_indicator_for_country (service_answering (JArr [JObj [(''message'', JStr ''no data'')]]))
       ''JPN'' GDP_IND 1990 (Some 2020) []
     = (Inr [], [Get (indicator_request ''JPN'' GDP_IND 1990 2020)])"
proof -
  let ?doc = "JArr [JObj [(''message'', JStr ''no data'')]]"
  have a: "net (service_answering ?doc) []
      (indicator_request ''JPN'' GDP_IND 1990 (end_of (service_answering ?doc) (Some 2020)))
     = Response 200 (Json ?doc)"
    by (simp add: service_answering_def)
  have b: "\<not> (400 \<le> (200::nat) \<and> (200::nat) < 600)" by simp
  have c: "\<not> (\<exists>xs. ?doc = JArr xs \<and> 2 \<le> length xs)" by simp
  show ?thesis
    using a b c malformed_response_empty_series [OF a b c] by (simp add: end_of_def)
qed

subsection \<open>The years of a fetched series\<close>

lemma collect_values_years:
  "collect_values items vals = Inr out \<Longrightarrow>
     fst ` set out = fst ` set vals \<union> {y. \<exists>item \<in> set items. record_year item = Inr y}"
proof (induction items arbitrary: vals)
  case Nil
  then show ?case by simp
next
  case (Cons item items)
  from Cons.prems obtain y v where y: "record_year item = Inr y" and v: "record_value item = Inr v"
    and rest: "collect_values items (AList.update y v vals) = Inr out"
    by (auto split: sum.splits)
  from Cons.IH [OF rest] show ?case
    using y by (auto simp: AList.dom_update)
qed

lemma collect_values_distinct:
  "collect_values items vals = Inr out \<Longrightarrow> distinct (map fst vals) \<Longrightarrow> distinct (map fst out)"
  by (induction items arbitrary: vals) (auto split: sum.splits simp: AList.distinct_update)

lemma series_of_response_records:
  assumes "series_of_response (JArr (meta # records # rest)) = Inr ser"
  shows "\<exists>items vals. py_iter records = Inr items \<and> collect_values items [] = Inr vals \<and>
           list_all (\<lambda>yv. in_int64 (fst yv)) vals \<and> ser = sort_key fst vals"
  using assms by (auto simp: series_of_response_def split: sum.splits if_splits)

lemma distinct_map_sort_key: "distinct (map f (sort_key f xs)) = distinct (map f xs)"
  by (induction xs) (simp_all add: distinct_insort_key)

lemma map_of_sort_key:
  assumes "distinct (map fst xs)"
  shows "map_of (sort_key fst xs) = map_of xs"
proof
  fix k
  show "map_of (sort_key fst xs) k = map_of xs k"
  proof (cases "map_of xs k")
    case None
    then have "k \<notin> fst ` set xs" by (simp add: map_of_eq_None_iff)
    then have "map_of (sort_key fst xs) k = None" by (simp add: map_of_eq_None_iff)
    with None show ?thesis by simp
  next
    case (Some v)
    then have "(k, v) \<in> set (sort_key fst xs)" by (simp add: map_of_SomeD)
    then show ?thesis
      using Some assms by (simp add: distinct_map_sort_key)
  qed
qed

text \<open>
  Claim C8, as the code has it. The claim says that a returned series never holds a
  year outside the fetch window, whatever the service answers. The code sends the
  window to the service and never applies it to the answer: the series holds exactly
  the years the records of the response name (\<open>int\<close> of each record's date), in
  ascending order and each once. So its years lie within \<open>[start, end]\<close> exactly when
  every record of the response has its date within \<open>[start, end]\<close>.
\<close>

theorem series_years_are_record_years:
  assumes "fetch_indicator_for_country ev c i s e tr = (Inr ser, tr')"
    and "net ev tr (indicator_request c i s (end_of ev e))
           = Response status (Json (JArr (meta # JArr records # rest)))"
  shows "fst ` set ser = {y. \<exists>item \<in> set records. record_year item = Inr y} \<and>
         sorted (map fst ser) \<and> distinct (map fst ser) \<and>
         ((\<forall>y \<in> fst ` set ser. s \<le> y \<and> y \<le> end_of ev e) \<longleftrightarrow>
          (\<forall>item \<in> set records. \<forall>y. record_year item = Inr y \<longrightarrow> s \<le> y \<and> y \<le> end_of ev e))"
proof -
  from assms have ok: "series_of_response (JArr (meta # JArr records # rest)) = Inr ser"
    by (auto simp: fetch_indicator_for_country_def Let_def split: if_splits)
  from series_of_response_records [OF ok] obtain vals where
    vals: "collect_values records [] = Inr vals" and ser: "ser = sort_key fst vals"
    by auto
  have years: "fst ` set ser = {y. \<exists>item \<in> set records. record_year item = Inr y}"
    using collect_values_years [OF vals] by (simp add: ser)
  have d: "distinct (map fst vals)"
    using collect_values_distinct [OF vals] by simp
  have "sorted (map fst ser)" by (simp add: ser)
  moreover have "distinct (map fst ser)" using d by (simp add: ser distinct_map_sort_key)
  ultimately show ?thesis using years by auto
qed

theorem series_years_are_record_years_witness:
  "fetch_indicator_for_country
       (service_answering (JArr [JObj [], JArr [JObj [(''date'', JStr ''2000''), (''value'', JInt 1)]]]))
       ''JPN'' GDP_IND 1990 (Some 2020) []
     = (Inr [(2000, Fin 1)], [Get (indicator_request ''JPN'' GDP_IND 1990 2020)]) \<and>
   fst ` set [(2000::int, Fin 1)]
     = {y. \<exists>item \<in> set [JObj [(''date'', JStr ''2000''), (''value'', JInt 1)]].
             record_year item = Inr y} \<and>
   record_year (JObj [(''date'', JStr ''2000''), (''value'', JInt 1)]) = Inr 2000 \<and>
   (1990::int) \<le> 2000 \<and> (2000::int) \<le> 2020"
proof -
  let ?rec = "JObj [(''date'', JStr ''2000''), (''value'', JInt 1)]"
  let ?ev = "service_answering (JArr [JObj [], JArr [?rec]])"
  have a: "fetch_indicator_for_country ?ev ''JPN'' GDP_IND 1990 (Some 2020) []
     = (Inr [(2000, Fin 1)], [Get (indicator_request ''JPN'' GDP_IND 1990 2020)])"
    by (simp add: fetch_eval)
  have b: "net ?ev [] (indicator_request ''JPN'' GDP_IND 1990 (end_of ?ev (Some 2020)))
     = Response 200 (Json (JArr (JObj [] # JArr [?rec] # [])))"
    by (simp add: service_answering_def)
  have c: "record_year ?rec = Inr 2000" by (simp add: parse_eval)
  show ?thesis
    using a c series_years_are_record_years [OF a b] by simp
qed

text \<open>
  Claim C8 fails on the code when the service reports a year outside the window: asked
  for 1990 to 2020 and answered with a record dated 1800, the fetch returns a series
  that holds 1800.
\<close>

theorem year_outside_window_counterexample:
  "fetch_indicator_for_country
       (service_answering (JArr [JObj [], JArr [JObj [(''date'', JStr ''1800''), (''value'', JInt 1)]]]))
       ''JPN'' GDP_IND 1990 (Some 2020) []
     = (Inr [(1800, Fin 1)], [Get (indicator_request ''JPN'' GDP_IND 1990 2020)]) \<and>
   \<not> (1990 \<le> (1800::int))"
  by (simp add: fetch_eval)

subsection \<open>Null values\<close>

lemma well_formed_record_ok:
  assumes "well_formed_record item"
  shows "\<exists>y v. record_year item = Inr y \<and> in_int64 y \<and> record_value item = Inr v"
proof -
  from assms obtain kvs where item: "item = JObj kvs"
    by (auto simp: well_formed_record_def split: json.splits)
  from assms item obtain d y where d: "map_of kvs ''date'' = Some (JStr d)"
    and y: "int_of_str d = Some y" "in_int64 y"
    by (auto simp: well_formed_record_def split: option.splits json.splits)
  from assms item obtain v where v: "map_of kvs ''value'' = Some v" "v = JNull \<or> is_number v"
    by (auto simp: well_formed_record_def split: option.splits)
  have "record_year item = Inr y" using item d y by (simp add: record_year_def)
  moreover have "\<exists>w. record_value item = Inr w"
    using item v by (cases v) (auto simp: record_value_def)
  ultimately show ?thesis using y by blast
qed

lemma collect_values_succeeds:
  "\<forall>item \<in> set items. well_formed_record item \<Longrightarrow> \<exists>out. collect_values items vals = Inr out"
proof (induction items arbitrary: vals)
  case Nil
  then show ?case by simp
next
  case (Cons item items)
  from Cons.prems have "well_formed_record item" by simp
  from well_formed_record_ok [OF this] obtain y v
    where "record_year item = Inr y" "record_value item = Inr v" by blast
  moreover from Cons.IH [of "AList.update y v vals"] Cons.prems
  obtain out where "collect_values items (AList.update y v vals) = Inr out" by auto
  ultimately show ?case by simp
qed

lemma collect_values_null:
  "collect_values items vals = Inr out \<Longrightarrow>
   \<forall>item \<in> set items. record_year item = Inr y \<longrightarrow> record_value item = Inr NaN \<Longrightarrow>
   map_of vals y = Some NaN \<or> (\<exists>item \<in> set items. record_year item = Inr y) \<Longrightarrow>
   map_of out y = Some NaN"
proof (induction items arbitrary: vals)
  case Nil
  then show ?case by simp
next
  case (Cons item items)
  from Cons.prems(1) obtain y' v where y': "record_year item = Inr y'"
    and v: "record_value item = Inr v"
    and rest: "collect_values items (AList.update y' v vals) = Inr out"
    by (auto split: sum.splits)
  have "map_of (AList.update y' v vals) y = Some NaN \<or> (\<exists>item \<in> set items. record_year item = Inr y)"
    using Cons.prems(2,3) y' v by (auto simp: AList.update_conv')
  with Cons.IH [OF rest] Cons.prems(2) show ?case by simp
qed

lemma null_record_value:
  "subscript item ''value'' = Inr JNull \<Longrightarrow> record_value item = Inr NaN"
  by (simp add: record_value_def)

text \<open>
  Claim C9, as the code has it. The claim says that every record with a null value is
  kept as an absent value. The records are collected in a dict keyed by year, so a
  later record for the same year overwrites an earlier one. For a well-formed response
  (status ok, a two-element array whose records are objects with a date string that
  reads as a year and a value that is a number or null), a record whose value is null
  is not dropped, and its year is a label of the returned series mapped to the absent
  value, where no record of the response gives that year a number. A year that no
  record names is not a label of the series at all, so the two cases are told apart.
\<close>

theorem null_value_retained:
  assumes "net ev tr (indicator_request c i s (end_of ev e))
             = Response status (Json (JArr (meta # JArr records # rest)))"
    and "\<not> (400 \<le> status \<and> status < 600)"
    and "\<forall>r \<in> set records. well_formed_record r"
    and "item \<in> set records"
    and "record_year item = Inr y"
    and "\<forall>r \<in> set records. record_year r = Inr y \<longrightarrow> subscript r ''value'' = Inr JNull"
  shows "\<exists>ser. fst (fetch_indicator_for_country ev c i s e tr) = Inr ser \<and>
           map_of ser y = Some NaN \<and>
           (\<forall>y'. (\<forall>r \<in> set records. record_year r \<noteq> Inr y') \<longrightarrow> map_of ser y' = None)"
proof -
  from collect_values_succeeds [OF assms(3)] obtain vals
    where vals: "collect_values records [] = Inr vals" by blast
  have keys: "fst ` set vals = {y. \<exists>r \<in> set records. record_year r = Inr y}"
    using collect_values_years [OF vals] by simp
  have d: "distinct (map fst vals)"
    using collect_values_distinct [OF vals] by simp
  have "\<forall>yv \<in> set vals. in_int64 (fst yv)"
  proof
    fix yv assume "yv \<in> set vals"
    then have "fst yv \<in> fst ` set vals" by simp
    with keys obtain r where r: "r \<in> set records" "record_year r = Inr (fst yv)" by auto
    from assms(3) r(1) have "well_formed_record r" by simp
    from well_formed_record_ok [OF this] r(2) show "in_int64 (fst yv)" by auto
  qed
  then have "series_of_response (JArr (meta # JArr records # rest)) = Inr (sort_key fst vals)"
    using vals by (simp add: series_of_response_def list_all_iff)
  with fetch_ok [OF assms(1,2)]
  have res: "fst (fetch_indicator_for_country ev c i s e tr) = Inr (sort_key fst vals)" by simp
  have "map_of vals y = Some NaN"
    using collect_values_null [OF vals, of y] assms(4,5,6) null_record_value by blast
  moreover have "map_of vals y' = None" if "\<forall>r \<in> set records. record_year r \<noteq> Inr y'" for y'
    using that keys by (auto simp: map_of_eq_None_iff)
  ultimately show ?thesis
    using res by (simp add: map_of_sort_key [OF d])
qed

theorem null_value_retained_witness:
  "well_formed_record (JObj [(''date'', JStr ''2020''), (''value'', JNull)]) \<and>
   well_formed_record (JObj [(''date'', JStr ''2019''), (''value'', JInt 10)]) \<and>
   record_year (JObj [(''date'', JStr ''2020''), (''value'', JNull)]) = Inr 2020 \<and>
   subscript (JObj [(''date'', JStr ''2020''), (''value'', JNull)]) ''value'' = Inr JNull \<and>
   fst (fetch_indicator_for_country
          (service_answering (JArr [JObj [],
             JArr [JObj [(''date'', JStr ''2020''), (''value'', JNull)],
                   JObj [(''date'', JStr ''2019''), (''value'', JInt 10)]]]))
          ''JPN'' GDP_IND 1990 (Some 2020) [])
     = Inr [(2019, Fin 10), (2020, NaN)] \<and>
   map_of [(2019::int, Fin 10), (2020, NaN)] 2020 = Some NaN \<and>
   map_of [(2019::int, Fin 10), (2020, NaN)] 2021 = None"
proof -
  let ?r0 = "JObj [(''date'', JStr ''2020''), (''value'', JNull)]"
  let ?r1 = "JObj [(''date'', JStr ''2019''), (''value'', JInt 10)]"
  let ?ev = "service_answering (JArr [JObj [], JArr [?r0, ?r1]])"
  have a: "net ?ev [] (indicator_request ''JPN'' GDP_IND 1990 (end_of ?ev (Some 2020)))
     = Response 200 (Json (JArr (JObj [] # JArr [?r0, ?r1] # [])))"
    by (simp add: service_answering_def)
  have b: "\<not> (400 \<le> (200::nat) \<and> (200::nat) < 600)" by simp
  have w0: "well_formed_record ?r0" by (simp add: well_formed_record_def parse_eval)
  have w1: "well_formed_record ?r1" by (simp add: well_formed_record_def parse_eval)
  have c: "\<forall>r \<in> set [?r0, ?r1]. well_formed_record r" using w0 w1 by simp
  have d: "?r0 \<in> set [?r0, ?r1]" by simp
  have y: "record_year ?r0 = Inr 2020" by (simp add: parse_eval)
  have y1: "record_year ?r1 = Inr 2019" by (simp add: parse_eval)
  have n: "\<forall>r \<in> set [?r0, ?r1]. record_year r = Inr 2020 \<longrightarrow> subscript r ''value'' = Inr JNull"
    using y1 by simp
  have res: "fst (fetch_indicator_for_country ?ev ''JPN'' GDP_IND 1990 (Some 2020) [])
     = Inr [(2019, Fin 10), (2020, NaN)]"
    by (simp add: fetch_eval)
  show ?thesis
    using w0 w1 y res null_value_retained [OF a b c d y n] by simp
qed

text \<open>
  Claim C9 fails on the code when a year is named twice: for the records 2020 with
  null and then 2020 with 5, both well-formed, the series maps 2020 to 5 and the null
  record has left no trace.
\<close>

theorem overwritten_null_counterexample:
  "well_formed_record (JObj [(''date'', JStr ''2020''), (''value'', JNull)]) \<and>
   well_formed_record (JObj [(''date'', JStr ''2020''), (''value'', JInt 5)]) \<and>
   record_year (JObj [(''date'', JStr ''2020''), (''value'', JNull)]) = Inr 2020 \<and>
   subscript (JObj [(''date'', JStr ''2020''), (''value'', JNull)]) ''value'' = Inr JNull \<and>
   fst (fetch_indicator_for_country
          (service_answering (JArr [JObj [],
             JArr [JObj [(''date'', JStr ''2020''), (''value'', JNull)],
                   JObj [(''date'', JStr ''2020''), (''value'', JInt 5)]]]))
          ''JPN'' GDP_IND 1990 (Some 2020) [])
     = Inr [(2020, Fin 5)] \<and>
   map_of [(2020::int, Fin 5)] 2020 = Some (Fin 5) \<and> \<not> absent (Fin 5)"
  by (simp add: well_formed_record_def fetch_eval absent_def)

subsection \<open>Malformed records\<close>

lemma malformed_record_fails:
  assumes "malformed_record item"
  shows "(\<exists>e. record_year item = Inl e) \<or> (\<exists>e. record_value item = Inl e)"
proof -
  from assms obtain kvs where item: "item = JObj kvs"
    by (auto simp: malformed_record_def split: json.splits)
  show ?thesis
    using assms unfolding item
    by (auto simp: malformed_record_def record_year_def record_value_def
        split: option.splits json.splits)
qed

lemma collect_values_fails:
  "item \<in> set items \<Longrightarrow> malformed_record item \<Longrightarrow> \<exists>e. collect_values items vals = Inl e"
proof (induction items arbitrary: vals)
  case Nil
  then show ?case by simp
next
  case (Cons r items)
  show ?case
  proof (cases "r = item")
    case True
    with malformed_record_fails [OF Cons.prems(2)] show ?thesis
      by (auto split: sum.splits)
  next
    case False
    with Cons.prems have "item \<in> set items" by simp
    from Cons.IH [OF this Cons.prems(2)] show ?thesis
      by (auto split: sum.splits)
  qed
qed

text \<open>
  Claim C10. When the response is an array of two (or more) elements and its list of
  records holds a record that lacks the \<open>date\<close> or the \<open>value\<close> key, or whose date
  string does not read as an integer, the fetch raises: its result is an error, never
  a series. The downgrade to the empty series covers the top-level shape only.
\<close>

theorem malformed_record_raises:
  assumes "net ev tr (indicator_request c i s (end_of ev e))
             = Response status (Json (JArr (meta # JArr records # rest)))"
    and "item \<in> set records"
    and "malformed_record item"
  shows "\<exists>err. fst (fetch_indicator_for_country ev c i s e tr) = Inl err"
proof -
  from collect_values_fails [OF assms(2,3)] obtain err
    where "collect_values records [] = Inl err" by blast
  then have "series_of_response (JArr (meta # JArr records # rest)) = Inl err"
    by (simp add: series_of_response_def)
  then show ?thesis
    using assms(1) by (auto simp: fetch_indicator_for_country_def Let_def)
qed

theorem malformed_record_raises_witness:
  "malformed_record (JObj [(''date'', JStr ''20x0''), (''value'', JInt 10)]) \<and>
   malformed_record (JObj [(''date'', JStr ''2020'')]) \<and>
   fst (fetch_indicator_for_country
          (service_answering (JArr [JObj [],
             JArr [JObj [(''date'', JStr ''2020''), (''value'', JInt 1)],
                   JObj [(''date'', JStr ''20x0''), (''value'', JInt 10)]]]))
          ''JPN'' GDP_IND 1990 (Some 2020) [])
     = Inl (ValueError ''invalid literal for int() with base 10'') \<and>
   fst (fetch_indicator_for_country
          (service_answering (JArr [JObj [], JArr [JObj [(''date'', JStr ''2020'')]]]))
          ''JPN'' GDP_IND 1990 (Some 2020) [])
     = Inl (KeyError ''value'')"
proof -
  let ?ok = "JObj [(''date'', JStr ''2020''), (''value'', JInt 1)]"
  let ?bad = "JObj [(''date'', JStr ''20x0''), (''value'', JInt 10)]"
  let ?ev = "service_answering (JArr [JObj [], JArr [?ok, ?bad]])"
  have a: "net ?ev [] (indicator_request ''JPN'' GDP_IND 1990 (end_of ?ev (Some 2020)))
     = Response 200 (Json (JArr (JObj [] # JArr [?ok, ?bad] # [])))"
    by (simp add: service_answering_def)
  have b: "?bad \<in> set [?ok, ?bad]" by simp
  have c: "malformed_record ?bad" by (simp add: malformed_record_def parse_eval)
  have c2: "malformed_record (JObj [(''date'', JStr ''2020'')])"
    by (simp add: malformed_record_def)
  have r1: "fst (fetch_indicator_for_country ?ev ''JPN'' GDP_IND 1990 (Some 2020) [])
     = Inl (ValueError ''invalid literal for int() with base 10'')"
    by (simp add: fetch_eval)
  have r2: "fst (fetch_indicator_for_country
          (service_answering (JArr [JObj [], JArr [JObj [(''date'', JStr ''2020'')]]]))
          ''JPN'' GDP_IND 1990 (Some 2020) [])
     = Inl (KeyError ''value'')"
    by (simp add: fetch_eval)
  show ?thesis
    using c c2 r1 r2 malformed_record_raises [OF a b c] by simp
qed

section \<open>Properties of the loop over the countries\<close>

lemma fetch_loop_extends:
  "\<exists>ext. snd (fetch_loop ev names s e p res tr) = tr @ ext"
proof (induction names arbitrary: res tr)
  case Nil
  then show ?case by simp
next
  case (Cons name names)
  show ?case
  proof (cases "map_of TOP10_COUNTRIES name")
    case None
    then show ?thesis by simp
  next
    case (Some iso3)
    let ?r1 = "Get (indicator_request iso3 MARKETCAP_IND s (end_of ev e))"
    let ?r2 = "Get (indicator_request iso3 GDP_IND s (end_of ev e))"
    show ?thesis
    proof (cases rule: fetch_cases [of ev iso3 MARKETCAP_IND s e tr])
      case (err er)
      then show ?thesis using Some by simp
    next
      case (ok mc)
      show ?thesis
      proof (cases rule: fetch_cases [of ev iso3 GDP_IND s e "tr @ [?r1]"])
        case (err er)
        then show ?thesis using Some ok by simp
      next
        case ok2: (ok g)
        show ?thesis
        proof (cases "p < 0")
          case True
          then show ?thesis using Some ok ok2 by (simp add: sleep_def)
        next
          case False
          from Cons.IH [of "AList.update name (country_frame mc g) res" "tr @ [?r1, ?r2, Sleep p]"]
          obtain ext where "snd (fetch_loop ev names s e p
              (AList.update name (country_frame mc g) res) (tr @ [?r1, ?r2, Sleep p]))
              = (tr @ [?r1, ?r2, Sleep p]) @ ext" by blast
          then show ?thesis using Some ok ok2 False by (simp add: sleep_def)
        qed
      qed
    qed
  qed
qed

lemma fetch_loop_first_call:
  assumes "map_of TOP10_COUNTRIES name = Some iso3"
  shows "\<exists>ext. snd (fetch_loop ev (name # names) s e p res tr)
           = tr @ Get (indicator_request iso3 MARKETCAP_IND s (end_of ev e)) # ext"
proof -
  let ?r1 = "Get (indicator_request iso3 MARKETCAP_IND s (end_of ev e))"
  let ?r2 = "Get (indicator_request iso3 GDP_IND s (end_of ev e))"
  show ?thesis
  proof (cases rule: fetch_cases [of ev iso3 MARKETCAP_IND s e tr])
    case (err er)
    then show ?thesis using assms by simp
  next
    case (ok mc)
    show ?thesis
    proof (cases rule: fetch_cases [of ev iso3 GDP_IND s e "tr @ [?r1]"])
      case (err er)
      then show ?thesis using assms ok by simp
    next
      case ok2: (ok g)
      show ?thesis
      proof (cases "p < 0")
        case True
        then show ?thesis using assms ok ok2 by (simp add: sleep_def)
      next
        case False
        from fetch_loop_extends [of ev names s e p
            "AList.update name (country_frame mc g) res" "tr @ [?r1, ?r2, Sleep p]"]
        obtain ext where "snd (fetch_loop ev names s e p
            (AList.update name (country_frame mc g) res) (tr @ [?r1, ?r2, Sleep p]))
            = (tr @ [?r1, ?r2, Sleep p]) @ ext" by blast
        then show ?thesis using assms ok ok2 False by (simp add: sleep_def)
      qed
    qed
  qed
qed

lemma fetch_loop_unsupported:
  assumes "map_of TOP10_COUNTRIES bad = None"
  shows "fetch_loop ev (pre @ bad # post) s e p res tr =
           (case fetch_loop ev pre s e p res tr of
              (Inl er, tr') \<Rightarrow> (Inl er, tr')
            | (Inr res', tr') \<Rightarrow> (Inl (country_error bad), tr'))"
proof (induction pre arbitrary: res tr)
  case Nil
  then show ?case using assms by simp
next
  case (Cons name pre)
  then show ?case
    by (simp split: option.splits prod.splits sum.splits)
qed

lemma fetch_loop_calls:
  "fetch_loop ev names s e p res tr = (Inr res', tr') \<Longrightarrow>
     net_calls tr' = net_calls tr + 2 * length names"
proof (induction names arbitrary: res tr)
  case Nil
  then show ?case by simp
next
  case (Cons name names)
  from Cons.prems obtain iso3 where iso: "map_of TOP10_COUNTRIES name = Some iso3"
    by (auto split: option.splits)
  let ?r1 = "Get (indicator_request iso3 MARKETCAP_IND s (end_of ev e))"
  let ?r2 = "Get (indicator_request iso3 GDP_IND s (end_of ev e))"
  show ?case
  proof (cases rule: fetch_cases [of ev iso3 MARKETCAP_IND s e tr])
    case (err er)
    then show ?thesis using Cons.prems iso by simp
  next
    case (ok mc)
    show ?thesis
    proof (cases rule: fetch_cases [of ev iso3 GDP_IND s e "tr @ [?r1]"])
      case (err er)
      then show ?thesis using Cons.prems iso ok by simp
    next
      case ok2: (ok g)
      show ?thesis
      proof (cases "p < 0")
        case True
        then show ?thesis using Cons.prems iso ok ok2 by (simp add: sleep_def)
      next
        case False
        then have "fetch_loop ev names s e p (AList.update name (country_frame mc g) res)
            (tr @ [?r1, ?r2, Sleep p]) = (Inr res', tr')"
          using Cons.prems iso ok ok2 by (simp add: sleep_def)
        from Cons.IH [OF this] show ?thesis
          by (simp add: net_calls_def)
      qed
    qed
  qed
qed

text \<open>
  Claim C2, as the code has it. The claim says that an unsupported name anywhere in the
  list stops \<open>fetch_for_countries\<close> before any network call. The code looks a name up
  when the loop reaches it. So: with an unsupported name first, the ValueError of line
  70 is raised and nothing has been sent; with an unsupported name at any position the
  call ends in an error; and when the names before it are all fetched without error,
  that error is the ValueError naming it, raised after two network calls for each of
  the names before it and before any call for the name itself or a later one.
\<close>

theorem unsupported_country_raises:
  assumes "map_of TOP10_COUNTRIES bad = None"
  shows "fetch_for_countries ev (bad # post) s e p tr = (Inl (country_error bad), tr) \<and>
         (\<exists>err tr'. fetch_for_countries ev (pre @ bad # post) s e p tr = (Inl err, tr')) \<and>
         (\<forall>res tr'. fetch_for_countries ev pre s e p tr = (Inr res, tr') \<longrightarrow>
            fetch_for_countries ev (pre @ bad # post) s e p tr = (Inl (country_error bad), tr') \<and>
            net_calls tr' = net_calls tr + 2 * length pre)"
proof -
  have first: "fetch_for_countries ev (bad # post) s e p tr = (Inl (country_error bad), tr)"
    using assms by (simp add: fetch_for_countries_def)
  have general: "fetch_for_countries ev (pre @ bad # post) s e p tr =
           (case fetch_for_countries ev pre s e p tr of
              (Inl er, tr') \<Rightarrow> (Inl er, tr')
            | (Inr res', tr') \<Rightarrow> (Inl (country_error bad), tr'))"
    unfolding fetch_for_countries_def by (rule fetch_loop_unsupported [OF assms])
  have fails: "\<exists>err tr'. fetch_for_countries ev (pre @ bad # post) s e p tr = (Inl err, tr')"
    unfolding general by (simp split: prod.splits sum.splits)
  have ok: "fetch_for_countries ev (pre @ bad # post) s e p tr = (Inl (country_error bad), tr') \<and>
            net_calls tr' = net_calls tr + 2 * length pre"
    if "fetch_for_countries ev pre s e p tr = (Inr res, tr')" for res tr'
    using that fetch_loop_calls [of ev pre s e p "[]" tr res tr'] general
    by (simp add: fetch_for_countries_def)
  from first fails ok show ?thesis by blast
qed

theorem unsupported_country_raises_witness:
  "map_of TOP10_COUNTRIES ''Atlantis'' = None \<and>
   fetch_for_countries (service_answering (JArr [JObj [(''message'', JStr ''no data'')]]))
       [''Atlantis'', ''Japan''] 1990 (Some 2020) (1/5) []
     = (Inl (country_error ''Atlantis''), []) \<and>
   net_calls [] = 0"
proof -
  have h: "map_of TOP10_COUNTRIES ''Atlantis'' = None"
    by (simp add: TOP10_COUNTRIES_def)
  show ?thesis
    using h unsupported_country_raises [OF h,
        where ev = "service_answering (JArr [JObj [(''message'', JStr ''no data'')]])"
          and post = "[''Japan'']" and s = 1990 and e = "Some 2020" and p = "1/5" and tr = "[]"
          and pre = "[]"]
    by (simp add: net_calls_def)
qed

text \<open>
  Claim C2 fails on the code when a supported name comes first: for the list Japan,
  Atlantis the two requests for Japan are sent (and the pause is made) before the
  ValueError for Atlantis is raised.
\<close>

theorem unsupported_second_counterexample:
  "fetch_for_countries (service_answering (JArr [JObj [(''message'', JStr ''no data'')]]))
       [''Japan'', ''Atlantis''] 1990 (Some 2020) (1/5) []
     = (Inl (country_error ''Atlantis''),
        [Get (indicator_request ''JPN'' MARKETCAP_IND 1990 2020),
         Get (indicator_request ''JPN'' GDP_IND 1990 2020), Sleep (1/5)]) \<and>
   net_calls [Get (indicator_request ''JPN'' MARKETCAP_IND 1990 2020),
         Get (indicator_request ''JPN'' GDP_IND 1990 2020), Sleep (1/5)] = 2"
  by (simp add: loop_eval net_calls_def)

lemma fetch_result:
  "fst (fetch_indicator_for_country ev c i s e tr) =
     (case net ev tr (indicator_request c i s (end_of ev e)) of
        ConnectionFailed \<Rightarrow> Inl RequestException
      | Response status b \<Rightarrow>
          if 400 \<le> status \<and> status < 600 then Inl (HTTPError status)
          else (case b of NotJson \<Rightarrow> Inl JSONDecodeError
                | Json data \<Rightarrow> series_of_response data))"
  by (auto simp: fetch_indicator_for_country_def Let_def split: http_result.splits body.splits)

lemma url_indicator_request:
  "url (indicator_request c i s y) = url (indicator_request c i s2 y2)"
  by (simp add: indicator_request_def)

lemma fetch_result_by_url:
  assumes "\<forall>tr req. net ev tr req = answer (url req)"
  shows "fst (fetch_indicator_for_country ev c i s e tr)
           = fst (fetch_indicator_for_country ev c i s2 e2 tr2)"
proof -
  have "net ev tr (indicator_request c i s (end_of ev e))
          = net ev tr2 (indicator_request c i s2 (end_of ev e2))"
    using assms url_indicator_request [of c i s "end_of ev e" s2 "end_of ev e2"] by simp
  then show ?thesis by (simp only: fetch_result)
qed

lemma fetch_loop_range_independent:
  assumes "\<forall>tr req. net ev tr req = answer (url req)"
  shows "fst (fetch_loop ev names s e p res tr) = fst (fetch_loop ev names s2 e2 p res tr2)"
proof (induction names arbitrary: res tr tr2)
  case Nil
  then show ?case by simp
next
  case (Cons name names)
  show ?case
  proof (cases "map_of TOP10_COUNTRIES name")
    case None
    then show ?thesis by simp
  next
    case (Some iso3)
    let ?a1 = "Get (indicator_request iso3 MARKETCAP_IND s (end_of ev e))"
    let ?b1 = "Get (indicator_request iso3 MARKETCAP_IND s2 (end_of ev e2))"
    let ?a2 = "Get (indicator_request iso3 GDP_IND s (end_of ev e))"
    let ?b2 = "Get (indicator_request iso3 GDP_IND s2 (end_of ev e2))"
    have m: "fst (fetch_indicator_for_country ev iso3 MARKETCAP_IND s e tr)
          = fst (fetch_indicator_for_country ev iso3 MARKETCAP_IND s2 e2 tr2)"
      by (rule fetch_result_by_url [OF assms])
    show ?thesis
    proof (cases rule: fetch_cases [of ev iso3 MARKETCAP_IND s e tr])
      case (err er)
      with m have "fetch_indicator_for_country ev iso3 MARKETCAP_IND s2 e2 tr2
          = (Inl er, tr2 @ [?b1])"
        using fetch_trace [of ev iso3 MARKETCAP_IND s2 e2 tr2] by (metis fst_conv prod.collapse)
      with err Some show ?thesis by simp
    next
      case (ok mc)
      with m have ok': "fetch_indicator_for_country ev iso3 MARKETCAP_IND s2 e2 tr2
          = (Inr mc, tr2 @ [?b1])"
        using fetch_trace [of ev iso3 MARKETCAP_IND s2 e2 tr2] by (metis fst_conv prod.collapse)
      have g: "fst (fetch_indicator_for_country ev iso3 GDP_IND s e (tr @ [?a1]))
          = fst (fetch_indicator_for_country ev iso3 GDP_IND s2 e2 (tr2 @ [?b1]))"
        by (rule fetch_result_by_url [OF assms])
      show ?thesis
      proof (cases rule: fetch_cases [of ev iso3 GDP_IND s e "tr @ [?a1]"])
        case (err er)
        with g have "fetch_indicator_for_country ev iso3 GDP_IND s2 e2 (tr2 @ [?b1])
            = (Inl er, (tr2 @ [?b1]) @ [?b2])"
          using fetch_trace [of ev iso3 GDP_IND s2 e2 "tr2 @ [?b1]"]
          by (metis fst_conv prod.collapse)
        with err ok ok' Some show ?thesis by simp
      next
        case ok2: (ok gd)
        with g have ok2': "fetch_indicator_for_country ev iso3 GDP_IND s2 e2 (tr2 @ [?b1])
            = (Inr gd, (tr2 @ [?b1]) @ [?b2])"
          using fetch_trace [of ev iso3 GDP_IND s2 e2 "tr2 @ [?b1]"]
          by (metis fst_conv prod.collapse)
        show ?thesis
        proof (cases "p < 0")
          case True
          then show ?thesis using Some ok ok' ok2 ok2' by (simp add: sleep_def)
        next
          case False
          from Cons.IH [of "AList.update name (country_frame mc gd) res"
              "tr @ [?a1, ?a2, Sleep p]" "tr2 @ [?b1, ?b2, Sleep p]"]
          show ?thesis using Some ok ok' ok2 ok2' False by (simp add: sleep_def)
        qed
      qed
    qed
  qed
qed

text \<open>
  Claim C5, as the code has it. The claim says that an invalid year range (start after
  end, or a year before 1990 or after the current year) fails before any I/O. Neither
  fetch function checks the range. For every start and end,
  \<open>_fetch_indicator_for_country\<close> sends its one request with the range as given, and
  what it returns is decided by the answer of the service alone: a transport or status
  or decoding error, or what the body parses to; no error comes from the range. On a
  list that starts with a supported name \<open>fetch_for_countries\<close> sends the request for
  that name's market capitalisation with the range as given. And against a service
  whose answer depends on the URL only, both functions return for any range what they
  return for any other range.
\<close>

theorem fetch_ignores_year_range:
  "snd (fetch_indicator_for_country ev c i s e tr)
     = tr @ [Get (indicator_request c i s (end_of ev e))] \<and>
   date (indicator_request c i s (end_of ev e)) = (s, end_of ev e) \<and>
   fst (fetch_indicator_for_country ev c i s e tr) =
     (case net ev tr (indicator_request c i s (end_of ev e)) of
        ConnectionFailed \<Rightarrow> Inl RequestException
      | Response status b \<Rightarrow>
          if 400 \<le> status \<and> status < 600 then Inl (HTTPError status)
          else (case b of NotJson \<Rightarrow> Inl JSONDecodeError
                | Json data \<Rightarrow> series_of_response data)) \<and>
   (map_of TOP10_COUNTRIES name = Some iso3 \<longrightarrow>
     (\<exists>ext. snd (fetch_for_countries ev (name # names) s e p tr)
        = tr @ Get (indicator_request iso3 MARKETCAP_IND s (end_of ev e)) # ext)) \<and>
   ((\<forall>tr req. net ev tr req = answer (url req)) \<longrightarrow>
      fst (fetch_indicator_for_country ev c i s e tr)
        = fst (fetch_indicator_for_country ev c i s2 e2 tr2) \<and>
      fst (fetch_for_countries ev countries s e p tr)
        = fst (fetch_for_countries ev countries s2 e2 p tr2))"
proof -
  have 1: "snd (fetch_indicator_for_country ev c i s e tr)
     = tr @ [Get (indicator_request c i s (end_of ev e))]"
    by (rule fetch_trace)
  have 2: "date (indicator_request c i s (end_of ev e)) = (s, end_of ev e)"
    by (simp add: indicator_request_def)
  have 4: "map_of TOP10_COUNTRIES name = Some iso3 \<longrightarrow>
     (\<exists>ext. snd (fetch_for_countries ev (name # names) s e p tr)
        = tr @ Get (indicator_request iso3 MARKETCAP_IND s (end_of ev e)) # ext)"
    using fetch_loop_first_call [of name iso3 ev names s e p "[]" tr]
    by (simp add: fetch_for_countries_def)
  have 5: "(\<forall>tr req. net ev tr req = answer (url req)) \<longrightarrow>
      fst (fetch_indicator_for_country ev c i s e tr)
        = fst (fetch_indicator_for_country ev c i s2 e2 tr2) \<and>
      fst (fetch_for_countries ev countries s e p tr)
        = fst (fetch_for_countries ev countries s2 e2 p tr2)"
    unfolding fetch_for_countries_def
    using fetch_result_by_url [of ev answer c i s e tr s2 e2 tr2]
      fetch_loop_range_independent [of ev answer countries s e p "[]" tr s2 e2 tr2]
    by blast
  show ?thesis
    by (intro conjI 1 2 fetch_result 4 5)
qed

theorem fetch_ignores_year_range_witness:
  "map_of TOP10_COUNTRIES ''Japan'' = Some ''JPN'' \<and>
   (\<forall>tr req. net (service_answering (JArr [JObj [(''message'', JStr ''no data'')]])) tr req
      = Response 200 (Json (JArr [JObj [(''message'', JStr ''no data'')]]))) \<and>
   snd (fetch_indicator_for_country
          (service_answering (JArr [JObj [(''message'', JStr ''no data'')]]))
          ''JPN'' GDP_IND 2030 (Some 1980) [])
     = [Get (indicator_request ''JPN'' GDP_IND 2030 1980)] \<and>
   date (indicator_request ''JPN'' GDP_IND 2030 1980) = (2030, 1980) \<and>
   fst (fetch_indicator_for_country
          (service_answering (JArr [JObj [(''message'', JStr ''no data'')]]))
          ''JPN'' GDP_IND 2030 (Some 1980) [])
     = fst (fetch_indicator_for_country
          (service_answering (JArr [JObj [(''message'', JStr ''no data'')]]))
          ''JPN'' GDP_IND 1990 (Some 2020) []) \<and>
   fst (fetch_for_countries
          (service_answering (JArr [JObj [(''message'', JStr ''no data'')]]))
          [''Japan''] 2030 (Some 1980) (1/5) [])
     = fst (fetch_for_countries
          (service_answering (JArr [JObj [(''message'', JStr ''no data'')]]))
          [''Japan''] 1990 (Some 2020) (1/5) [])"
proof -
  let ?doc = "JArr [JObj [(''message'', JStr ''no data'')]]"
  have h: "map_of TOP10_COUNTRIES ''Japan'' = Some ''JPN''"
    by (simp add: TOP10_COUNTRIES_def)
  have u: "\<forall>tr req. net (service_answering ?doc) tr req
      = (\<lambda>u. Response 200 (Json ?doc)) (url req)"
    by (simp add: service_answering_def)
  show ?thesis
    using h u fetch_ignores_year_range
      [where ev = "service_answering ?doc"
         and c = "''JPN''" and i = GDP_IND and s = 2030 and e = "Some 1980" and tr = "[]"
         and name = "''Japan''" and ?iso3.0 = "''JPN''" and names = "[]" and p = "1/5"
         and answer = "\<lambda>u. Response 200 (Json ?doc)" and countries = "[''Japan'']"
         and ?s2.0 = 1990 and ?e2.0 = "Some 2020" and ?tr2.0 = "[]"]
    by (simp add: loop_eval)
qed

text \<open>
  Claim C5 fails on the code for the range 2030 to 1980 (start after end, end before
  1990, start after the current year 2024 of the service modelled): both requests for
  Japan are sent and the call returns a table, with no error.
\<close>

theorem invalid_range_counterexample:
  "fetch_for_countries (service_answering (JArr [JObj [(''message'', JStr ''no data'')]]))
       [''Japan''] 2030 (Some 1980) (1/5) []
     = (Inr [(''Japan'', [])],
        [Get (indicator_request ''JPN'' MARKETCAP_IND 2030 1980),
         Get (indicator_request ''JPN'' GDP_IND 2030 1980), Sleep (1/5)]) \<and>
   \<not> (2030 \<le> (1980::int)) \<and> \<not> (1990 \<le> (1980::int)) \<and>
   \<not> (2030 \<le> now_year (service_answering (JArr [JObj [(''message'', JStr ''no data'')]])))"
  by (simp add: loop_eval)

section \<open>The ratio column of the fetched tables\<close>

lemma country_frame_row:
  assumes "(y, r) \<in> set (country_frame mc g)"
  shows "r = \<lparr>market_cap = reindex mc y, gdp = reindex g y,
               buffett = fdiv (reindex mc y) (reindex g y)\<rparr>"
  using assms by (auto simp: country_frame_def)

lemma set_update_cases:
  "kv \<in> set (AList.update k v al) \<Longrightarrow> kv = (k, v) \<or> kv \<in> set al"
  by (induction al) (auto split: if_splits)

lemma fetch_loop_frames:
  "fetch_loop ev names s e p res tr = (Inr res', tr') \<Longrightarrow>
   \<forall>nd \<in> set res. \<exists>mc g. snd nd = country_frame mc g \<Longrightarrow>
   \<forall>nd \<in> set res'. \<exists>mc g. snd nd = country_frame mc g"
proof (induction names arbitrary: res tr)
  case Nil
  then show ?case by simp
next
  case (Cons name names)
  from Cons.prems(1) obtain iso3 where iso: "map_of TOP10_COUNTRIES name = Some iso3"
    by (auto split: option.splits)
  let ?r1 = "Get (indicator_request iso3 MARKETCAP_IND s (end_of ev e))"
  let ?r2 = "Get (indicator_request iso3 GDP_IND s (end_of ev e))"
  show ?case
  proof (cases rule: fetch_cases [of ev iso3 MARKETCAP_IND s e tr])
    case (err er)
    then show ?thesis using Cons.prems(1) iso by simp
  next
    case (ok mc)
    show ?thesis
    proof (cases rule: fetch_cases [of ev iso3 GDP_IND s e "tr @ [?r1]"])
      case (err er)
      then show ?thesis using Cons.prems(1) iso ok by simp
    next
      case ok2: (ok g)
      show ?thesis
      proof (cases "p < 0")
        case True
        then show ?thesis using Cons.prems(1) iso ok ok2 by (simp add: sleep_def)
      next
        case False
        then have run: "fetch_loop ev names s e p (AList.update name (country_frame mc g) res)
            (tr @ [?r1, ?r2, Sleep p]) = (Inr res', tr')"
          using Cons.prems(1) iso ok ok2 by (simp add: sleep_def)
        have "\<forall>nd \<in> set (AList.update name (country_frame mc g) res).
                \<exists>mc g. snd nd = country_frame mc g"
          using Cons.prems(2) set_update_cases [of _ name "country_frame mc g" res]
          by (metis snd_conv)
        from Cons.IH [OF run this] show ?thesis .
      qed
    qed
  qed
qed

lemma fetch_loop_names:
  "fetch_loop ev names s e p res tr = (Inr res', tr') \<Longrightarrow>
   distinct (map fst res) \<Longrightarrow> distinct (map fst res')"
proof (induction names arbitrary: res tr)
  case Nil
  then show ?case by simp
next
  case (Cons name names)
  from Cons.prems(1) obtain iso3 where iso: "map_of TOP10_COUNTRIES name = Some iso3"
    by (auto split: option.splits)
  let ?r1 = "Get (indicator_request iso3 MARKETCAP_IND s (end_of ev e))"
  let ?r2 = "Get (indicator_request iso3 GDP_IND s (end_of ev e))"
  show ?case
  proof (cases rule: fetch_cases [of ev iso3 MARKETCAP_IND s e tr])
    case (err er)
    then show ?thesis using Cons.prems(1) iso by simp
  next
    case (ok mc)
    show ?thesis
    proof (cases rule: fetch_cases [of ev iso3 GDP_IND s e "tr @ [?r1]"])
      case (err er)
      then show ?thesis using Cons.prems(1) iso ok by simp
    next
      case ok2: (ok g)
      show ?thesis
      proof (cases "p < 0")
        case True
        then show ?thesis using Cons.prems(1) iso ok ok2 by (simp add: sleep_def)
      next
        case False
        then have run: "fetch_loop ev names s e p (AList.update name (country_frame mc g) res)
            (tr @ [?r1, ?r2, Sleep p]) = (Inr res', tr')"
          using Cons.prems(1) iso ok ok2 by (simp add: sleep_def)
        have "distinct (map fst (AList.update name (country_frame mc g) res))"
          using Cons.prems(2) by (rule AList.distinct_update)
        from Cons.IH [OF run this] show ?thesis .
      qed
    qed
  qed
qed

lemma fetch_for_countries_tables:
  assumes "fetch_for_countries ev countries s e p tr = (Inr res, tr')"
  shows "distinct (map fst res) \<and>
         (\<forall>nd \<in> set res. sorted (map fst (snd nd)) \<and> distinct (map fst (snd nd)))"
proof -
  have names: "distinct (map fst res)"
    using fetch_loop_names [of ev countries s e p "[]" tr res tr'] assms
    by (simp add: fetch_for_countries_def)
  have "\<forall>nd \<in> set res. \<exists>mc g. snd nd = country_frame mc g"
    using fetch_loop_frames [of ev countries s e p "[]" tr res tr'] assms
    by (simp add: fetch_for_countries_def)
  then have "\<forall>nd \<in> set res. sorted (map fst (snd nd)) \<and> distinct (map fst (snd nd))"
    using country_frame_sorted by metis
  with names show ?thesis by simp
qed

lemma reindex_cases:
  "reindex s y = (case map_of s y of Some v \<Rightarrow> v | None \<Rightarrow> NaN)"
  by (simp add: reindex_def)

lemma ratio_present_iff:
  "\<not> absent (fdiv (reindex mc y) (reindex g y)) \<longleftrightarrow>
     (\<exists>a b. map_of mc y = Some a \<and> map_of g y = Some b \<and>
            \<not> absent a \<and> \<not> absent b \<and>
            \<not> (is_zero a \<and> is_zero b) \<and> \<not> (is_inf a \<and> is_inf b))"
proof (cases "map_of mc y")
  case None
  then show ?thesis by (simp add: reindex_def absent_def fdiv_def)
next
  case a: (Some a)
  show ?thesis
  proof (cases "map_of g y")
    case None
    then show ?thesis by (simp add: reindex_def absent_def fdiv_def)
  next
    case (Some b)
    then show ?thesis
      using a fdiv_present_iff [of a b] by (simp add: reindex_def absent_def)
  qed
qed

lemma ratio_zero_gdp_inf:
  assumes "map_of mc y = Some a" and "map_of g y = Some b"
    and "is_zero b" and "\<not> absent a" and "\<not> is_zero a"
  shows "is_inf (fdiv (reindex mc y) (reindex g y))"
  using assms fdiv_by_zero_inf [of b a] by (simp add: reindex_def absent_def)

lemma country_frame_rows:
  assumes "yr \<in> set (country_frame mc g)"
  shows "market_cap (snd yr) = (case map_of mc (fst yr) of Some v \<Rightarrow> v | None \<Rightarrow> NaN) \<and>
      gdp (snd yr) = (case map_of g (fst yr) of Some v \<Rightarrow> v | None \<Rightarrow> NaN) \<and>
      buffett (snd yr) = fdiv (market_cap (snd yr)) (gdp (snd yr)) \<and>
      (\<not> absent (buffett (snd yr)) \<longleftrightarrow>
         (\<exists>a b. map_of mc (fst yr) = Some a \<and> map_of g (fst yr) = Some b \<and>
                \<not> absent a \<and> \<not> absent b \<and>
                \<not> (is_zero a \<and> is_zero b) \<and> \<not> (is_inf a \<and> is_inf b))) \<and>
      (\<forall>a b. map_of mc (fst yr) = Some a \<and> map_of g (fst yr) = Some b \<and>
             is_zero b \<and> \<not> absent a \<and> \<not> is_zero a \<longrightarrow> is_inf (buffett (snd yr)))"
proof -
  obtain y r where yr: "yr = (y, r)" by (cases yr)
  from assms have r: "r = \<lparr>market_cap = reindex mc y, gdp = reindex g y,
      buffett = fdiv (reindex mc y) (reindex g y)\<rparr>"
    unfolding yr by (rule country_frame_row)
  have 1: "market_cap (snd yr) = (case map_of mc (fst yr) of Some v \<Rightarrow> v | None \<Rightarrow> NaN)"
    by (simp add: yr r reindex_cases)
  have 2: "gdp (snd yr) = (case map_of g (fst yr) of Some v \<Rightarrow> v | None \<Rightarrow> NaN)"
    by (simp add: yr r reindex_cases)
  have 3: "buffett (snd yr) = fdiv (market_cap (snd yr)) (gdp (snd yr))"
    by (simp add: yr r)
  have b: "buffett (snd yr) = fdiv (reindex mc (fst yr)) (reindex g (fst yr))"
    by (simp add: yr r)
  have 4: "\<not> absent (buffett (snd yr)) \<longleftrightarrow>
         (\<exists>a b. map_of mc (fst yr) = Some a \<and> map_of g (fst yr) = Some b \<and>
                \<not> absent a \<and> \<not> absent b \<and>
                \<not> (is_zero a \<and> is_zero b) \<and> \<not> (is_inf a \<and> is_inf b))"
    unfolding b by (rule ratio_present_iff)
  have 5: "\<forall>a b. map_of mc (fst yr) = Some a \<and> map_of g (fst yr) = Some b \<and>
             is_zero b \<and> \<not> absent a \<and> \<not> is_zero a \<longrightarrow> is_inf (buffett (snd yr))"
    unfolding b using ratio_zero_gdp_inf [of mc "fst yr" _ g] by blast
  show ?thesis
    by (intro conjI 1 2 3 4 5)
qed

lemma fetch_loop_sources:
  "fetch_loop ev names s e p res tr = (Inr res', tr') \<Longrightarrow>
   \<forall>nd \<in> set res. \<exists>iso3 tr1 mc g.
      map_of TOP10_COUNTRIES (fst nd) = Some iso3 \<and>
      fst (fetch_indicator_for_country ev iso3 MARKETCAP_IND s e tr1) = Inr mc \<and>
      fst (fetch_indicator_for_country ev iso3 GDP_IND s e
             (snd (fetch_indicator_for_country ev iso3 MARKETCAP_IND s e tr1))) = Inr g \<and>
      snd nd = country_frame mc g \<Longrightarrow>
   \<forall>nd \<in> set res'. \<exists>iso3 tr1 mc g.
      map_of TOP10_COUNTRIES (fst nd) = Some iso3 \<and>
      fst (fetch_indicator_for_country ev iso3 MARKETCAP_IND s e tr1) = Inr mc \<and>
      fst (fetch_indicator_for_country ev iso3 GDP_IND s e
             (snd (fetch_indicator_for_country ev iso3 MARKETCAP_IND s e tr1))) = Inr g \<and>
      snd nd = country_frame mc g"
proof (induction names arbitrary: res tr)
  case Nil
  then show ?case by simp
next
  case (Cons name names)
  from Cons.prems(1) obtain iso3 where iso: "map_of TOP10_COUNTRIES name = Some iso3"
    by (auto split: option.splits)
  let ?r1 = "Get (indicator_request iso3 MARKETCAP_IND s (end_of ev e))"
  let ?r2 = "Get (indicator_request iso3 GDP_IND s (end_of ev e))"
  show ?case
  proof (cases rule: fetch_cases [of ev iso3 MARKETCAP_IND s e tr])
    case (err er)
    then show ?thesis using Cons.prems(1) iso by simp
  next
    case (ok mc)
    show ?thesis
    proof (cases rule: fetch_cases [of ev iso3 GDP_IND s e "tr @ [?r1]"])
      case (err er)
      then show ?thesis using Cons.prems(1) iso ok by simp
    next
      case ok2: (ok g)
      show ?thesis
      proof (cases "p < 0")
        case True
        then show ?thesis using Cons.prems(1) iso ok ok2 by (simp add: sleep_def)
      next
        case False
        then have run: "fetch_loop ev names s e p (AList.update name (country_frame mc g) res)
            (tr @ [?r1, ?r2, Sleep p]) = (Inr res', tr')"
          using Cons.prems(1) iso ok ok2 by (simp add: sleep_def)
        have new: "\<exists>iso3 tr1 mc' g'.
            map_of TOP10_COUNTRIES name = Some iso3 \<and>
            fst (fetch_indicator_for_country ev iso3 MARKETCAP_IND s e tr1) = Inr mc' \<and>
            fst (fetch_indicator_for_country ev iso3 GDP_IND s e
                   (snd (fetch_indicator_for_country ev iso3 MARKETCAP_IND s e tr1))) = Inr g' \<and>
            country_frame mc g = country_frame mc' g'"
        proof (intro exI conjI)
          show "map_of TOP10_COUNTRIES name = Some iso3" by (rule iso)
          show "fst (fetch_indicator_for_country ev iso3 MARKETCAP_IND s e tr) = Inr mc"
            by (simp add: ok)
          show "fst (fetch_indicator_for_country ev iso3 GDP_IND s e
                   (snd (fetch_indicator_for_country ev iso3 MARKETCAP_IND s e tr))) = Inr g"
            by (simp add: ok ok2)
          show "country_frame mc g = country_frame mc g" by (rule refl)
        qed
        have inv: "\<forall>nd \<in> set (AList.update name (country_frame mc g) res).
           \<exists>iso3 tr1 mc g.
              map_of TOP10_COUNTRIES (fst nd) = Some iso3 \<and>
              fst (fetch_indicator_for_country ev iso3 MARKETCAP_IND s e tr1) = Inr mc \<and>
              fst (fetch_indicator_for_country ev iso3 GDP_IND s e
                     (snd (fetch_indicator_for_country ev iso3 MARKETCAP_IND s e tr1))) = Inr g \<and>
              snd nd = country_frame mc g"
        proof
          fix nd assume "nd \<in> set (AList.update name (country_frame mc g) res)"
          then have "nd = (name, country_frame mc g) \<or> nd \<in> set res"
            by (rule set_update_cases)
          then show "\<exists>iso3 tr1 mc g.
              map_of TOP10_COUNTRIES (fst nd) = Some iso3 \<and>
              fst (fetch_indicator_for_country ev iso3 MARKETCAP_IND s e tr1) = Inr mc \<and>
              fst (fetch_indicator_for_country ev iso3 GDP_IND s e
                     (snd (fetch_indicator_for_country ev iso3 MARKETCAP_IND s e tr1))) = Inr g \<and>
              snd nd = country_frame mc g"
          proof
            assume "nd = (name, country_frame mc g)"
            then show ?thesis using new by simp
          next
            assume "nd \<in> set res"
            then show ?thesis using Cons.prems(2) by simp
          qed
        qed
        from Cons.IH [OF run inv] show ?thesis .
      qed
    qed
  qed
qed

text \<open>
  Claim C1, as the code has it. The claim says that the ratio is absent wherever GDP is
  zero. The code divides the two aligned columns with no guard, so the ratio follows
  IEEE 754 division. Every table that \<open>fetch_for_countries\<close> returns for a country is
  built from the two series fetched for that country, market cap first and GDP next:
  its years are the union of the years of the two series (the outer join), ascending
  and each once; in the row of a year the two value cells are the values of the two
  series there, absent where a series lacks the year, and the ratio cell is market cap
  divided by GDP. The ratio is populated exactly at the years where both series have a
  present value, unless both values are zero or both are infinite; at every other year
  of the join it is absent. Where GDP is zero while market cap is present and not
  zero, the ratio is an infinity, which pandas does not count as missing. For
  mc = {2020: 100, 2021: 110} and gdp = {2020: 50, 2021: 0} the ratio is
  {2020: 2.0, 2021: inf}.
\<close>

theorem fetched_table_ratio:
  assumes "fetch_for_countries ev countries s e p tr = (Inr res, tr')"
    and "(name, df) \<in> set res"
  shows "\<exists>iso3 tr1 mc g.
     map_of TOP10_COUNTRIES name = Some iso3 \<and>
     fst (fetch_indicator_for_country ev iso3 MARKETCAP_IND s e tr1) = Inr mc \<and>
     fst (fetch_indicator_for_country ev iso3 GDP_IND s e
            (snd (fetch_indicator_for_country ev iso3 MARKETCAP_IND s e tr1))) = Inr g \<and>
     sorted (map fst df) \<and> distinct (map fst df) \<and>
     set (map fst df) = fst ` set mc \<union> fst ` set g \<and>
     (\<forall>yr \<in> set df.
        market_cap (snd yr) = (case map_of mc (fst yr) of Some v \<Rightarrow> v | None \<Rightarrow> NaN) \<and>
        gdp (snd yr) = (case map_of g (fst yr) of Some v \<Rightarrow> v | None \<Rightarrow> NaN) \<and>
        buffett (snd yr) = fdiv (market_cap (snd yr)) (gdp (snd yr)) \<and>
        (\<not> absent (buffett (snd yr)) \<longleftrightarrow>
           (\<exists>a b. map_of mc (fst yr) = Some a \<and> map_of g (fst yr) = Some b \<and>
                  \<not> absent a \<and> \<not> absent b \<and>
                  \<not> (is_zero a \<and> is_zero b) \<and> \<not> (is_inf a \<and> is_inf b))) \<and>
        (\<forall>a b. map_of mc (fst yr) = Some a \<and> map_of g (fst yr) = Some b \<and>
               is_zero b \<and> \<not> absent a \<and> \<not> is_zero a \<longrightarrow> is_inf (buffett (snd yr))))"
proof -
  have "\<forall>nd \<in> set res. \<exists>iso3 tr1 mc g.
      map_of TOP10_COUNTRIES (fst nd) = Some iso3 \<and>
      fst (fetch_indicator_for_country ev iso3 MARKETCAP_IND s e tr1) = Inr mc \<and>
      fst (fetch_indicator_for_country ev iso3 GDP_IND s e
             (snd (fetch_indicator_for_country ev iso3 MARKETCAP_IND s e tr1))) = Inr g \<and>
      snd nd = country_frame mc g"
    using fetch_loop_sources [of ev countries s e p "[]" tr res tr'] assms(1)
    by (simp add: fetch_for_countries_def)
  from this [rule_format, OF assms(2)] obtain iso3 tr1 mc g where
    iso: "map_of TOP10_COUNTRIES name = Some iso3"
    and mc: "fst (fetch_indicator_for_country ev iso3 MARKETCAP_IND s e tr1) = Inr mc"
    and g: "fst (fetch_indicator_for_country ev iso3 GDP_IND s e
             (snd (fetch_indicator_for_country ev iso3 MARKETCAP_IND s e tr1))) = Inr g"
    and df: "df = country_frame mc g"
    by auto
  have srt: "sorted (map fst df)" and dst: "distinct (map fst df)"
    using country_frame_sorted [of mc g] by (simp_all add: df)
  have yrs: "set (map fst df) = fst ` set mc \<union> fst ` set g"
    unfolding df by (rule country_frame_years)
  have rows: "\<forall>yr \<in> set df.
        market_cap (snd yr) = (case map_of mc (fst yr) of Some v \<Rightarrow> v | None \<Rightarrow> NaN) \<and>
        gdp (snd yr) = (case map_of g (fst yr) of Some v \<Rightarrow> v | None \<Rightarrow> NaN) \<and>
        buffett (snd yr) = fdiv (market_cap (snd yr)) (gdp (snd yr)) \<and>
        (\<not> absent (buffett (snd yr)) \<longleftrightarrow>
           (\<exists>a b. map_of mc (fst yr) = Some a \<and> map_of g (fst yr) = Some b \<and>
                  \<not> absent a \<and> \<not> absent b \<and>
                  \<not> (is_zero a \<and> is_zero b) \<and> \<not> (is_inf a \<and> is_inf b))) \<and>
        (\<forall>a b. map_of mc (fst yr) = Some a \<and> map_of g (fst yr) = Some b \<and>
               is_zero b \<and> \<not> absent a \<and> \<not> is_zero a \<longrightarrow> is_inf (buffett (snd yr)))"
    unfolding df using country_frame_rows [of _ mc g] by (intro ballI)
  show ?thesis
    by (rule exI [of _ iso3], rule exI [of _ tr1], rule exI [of _ mc], rule exI [of _ g])
      (rule conjI iso mc g srt dst yrs rows)+
qed

lemma spec_example_run:
  "fetch_for_countries
       (service_by_indicator
          (JArr [JObj [], JArr [JObj [(''date'', JStr ''2021''), (''value'', JInt 110)],
                                JObj [(''date'', JStr ''2020''), (''value'', JInt 100)]]])
          (JArr [JObj [], JArr [JObj [(''date'', JStr ''2021''), (''value'', JInt 0)],
                                JObj [(''date'', JStr ''2020''), (''value'', JInt 50)]]]))
       [''Japan''] 2020 (Some 2021) (1/5) []
     = (Inr [(''Japan'',
              [(2020, \<lparr>market_cap = Fin 100, gdp = Fin 50, buffett = Fin 2\<rparr>),
               (2021, \<lparr>market_cap = Fin 110, gdp = Fin 0, buffett = PInf\<rparr>)])],
        [Get (indicator_request ''JPN'' MARKETCAP_IND 2020 2021),
         Get (indicator_request ''JPN'' GDP_IND 2020 2021), Sleep (1/5)])"
  by (simp add: fetch_for_countries_def TOP10_COUNTRIES_def sleep_def country_frame_def
      union_index_def fetch_indicator_for_country_def service_by_indicator_def end_of_def
      Let_def parse_eval indicator_request_def ends_with_def WB_API_def MARKETCAP_IND_def
      GDP_IND_def dbl_overflow_def reindex_def fdiv_def is_inf_def is_zero_def inf_of_def)

theorem fetched_table_ratio_witness:
  "(''Japan'', [(2020, \<lparr>market_cap = Fin 100, gdp = Fin 50, buffett = Fin 2\<rparr>),
               (2021, \<lparr>market_cap = Fin 110, gdp = Fin 0, buffett = PInf\<rparr>)])
     \<in> set [(''Japan'', [(2020::int, \<lparr>market_cap = Fin 100, gdp = Fin 50, buffett = Fin 2\<rparr>),
                         (2021, \<lparr>market_cap = Fin 110, gdp = Fin 0, buffett = PInf\<rparr>)])] \<and>
   map_of TOP10_COUNTRIES ''Japan'' = Some ''JPN'' \<and>
   sorted (map fst [(2020::int, \<lparr>market_cap = Fin 100, gdp = Fin 50, buffett = Fin 2\<rparr>),
                    (2021, \<lparr>market_cap = Fin 110, gdp = Fin 0, buffett = PInf\<rparr>)]) \<and>
   distinct (map fst [(2020::int, \<lparr>market_cap = Fin 100, gdp = Fin 50, buffett = Fin 2\<rparr>),
                      (2021, \<lparr>market_cap = Fin 110, gdp = Fin 0, buffett = PInf\<rparr>)]) \<and>
   Fin 2 = fdiv (Fin 100) (Fin 50) \<and> \<not> absent (Fin 2) \<and>
   \<not> absent (Fin 100) \<and> \<not> absent (Fin 50) \<and> \<not> is_zero (Fin 50)"
proof -
  let ?df = "[(2020::int, \<lparr>market_cap = Fin 100, gdp = Fin 50, buffett = Fin 2\<rparr>),
              (2021, \<lparr>market_cap = Fin 110, gdp = Fin 0, buffett = PInf\<rparr>)]"
  have b: "(''Japan'', ?df) \<in> set [(''Japan'', ?df)]" by simp
  from fetched_table_ratio [OF spec_example_run b] obtain iso3 where
    iso: "map_of TOP10_COUNTRIES ''Japan'' = Some iso3"
    and srt: "sorted (map fst ?df)" and dst: "distinct (map fst ?df)"
    by (elim exE conjE)
  from iso have "map_of TOP10_COUNTRIES ''Japan'' = Some ''JPN''"
    by (simp add: TOP10_COUNTRIES_def)
  with b srt dst show ?thesis
    by (simp add: absent_def is_zero_def fdiv_def is_inf_def)
qed

text \<open>
  The example of claim C1 on the code: the service reports a market cap of 100 and 110
  and a GDP of 50 and 0 for 2020 and 2021; in the table returned, the ratio at 2021,
  where GDP is zero, is plus infinity and not absent.
\<close>

theorem ratio_zero_gdp_counterexample:
  "fetch_for_countries
       (service_by_indicator
          (JArr [JObj [], JArr [JObj [(''date'', JStr ''2021''), (''value'', JInt 110)],
                                JObj [(''date'', JStr ''2020''), (''value'', JInt 100)]]])
          (JArr [JObj [], JArr [JObj [(''date'', JStr ''2021''), (''value'', JInt 0)],
                                JObj [(''date'', JStr ''2020''), (''value'', JInt 50)]]]))
       [''Japan''] 2020 (Some 2021) (1/5) []
     = (Inr [(''Japan'',
              [(2020, \<lparr>market_cap = Fin 100, gdp = Fin 50, buffett = Fin 2\<rparr>),
               (2021, \<lparr>market_cap = Fin 110, gdp = Fin 0, buffett = PInf\<rparr>)])],
        [Get (indicator_request ''JPN'' MARKETCAP_IND 2020 2021),
         Get (indicator_request ''JPN'' GDP_IND 2020 2021), Sleep (1/5)]) \<and>
   is_zero (Fin 0) \<and> \<not> absent PInf"
  using spec_example_run by (simp add: is_zero_def absent_def)

section \<open>Properties of the combined table\<close>

lemma map_of_map_snd:
  "map_of (map (\<lambda>kv. (fst kv, f (snd kv))) xs) = map_option f \<circ> map_of xs"
  by (induction xs) (auto simp: fun_eq_iff)

lemma map_fst_percent: "map fst (percent df) = map fst df"
  by (simp add: percent_def comp_def)

lemma reindex_percent:
  "reindex (percent df) y =
     (case map_of df y of Some r \<Rightarrow> fmul (buffett r) (Fin 100) | None \<Rightarrow> NaN)"
proof -
  have "map_of (percent df) = map_option (\<lambda>r. fmul (buffett r) (Fin 100)) \<circ> map_of df"
    unfolding percent_def by (rule map_of_map_snd)
  then show ?thesis by (simp add: reindex_def split: option.splits)
qed

lemma combine_index:
  "country_data \<noteq> [] \<Longrightarrow>
     index (combine_countries_to_df country_data)
       = sort (remdups (concat (map (\<lambda>nd. map fst (snd nd)) country_data)))"
  by (simp add: combine_countries_to_df_def Let_def comp_def map_fst_percent)

lemma combine_columns:
  "country_data \<noteq> [] \<Longrightarrow>
     columns (combine_countries_to_df country_data)
       = map (\<lambda>nd. (fst nd, map (reindex (percent (snd nd)))
                              (index (combine_countries_to_df country_data)))) country_data"
  by (simp add: combine_countries_to_df_def Let_def comp_def map_fst_percent)

text \<open>
  Claim C6. For a non-empty dict of per-country tables (the names are the keys of a
  dict, so they are distinct, and a table is keyed by year, each year once, as every
  table built by \<open>fetch_for_countries\<close> is), the combined table has as row labels the
  union of the years of the input tables, in ascending order and each once; its
  columns are named by the countries, in the order of the dict; and the cell of a
  country at a year of the table is that country's ratio at that year times 100, or
  absent where the country's table has no such year.
\<close>

theorem combine_outer_join:
  assumes "country_data \<noteq> []"
    and "distinct (map fst country_data)"
    and "\<forall>nd \<in> set country_data. distinct (map fst (snd nd))"
  shows "sorted (index (combine_countries_to_df country_data)) \<and>
         distinct (index (combine_countries_to_df country_data)) \<and>
         set (index (combine_countries_to_df country_data))
           = (\<Union>df \<in> snd ` set country_data. fst ` set df) \<and>
         map fst (columns (combine_countries_to_df country_data)) = map fst country_data \<and>
         (\<forall>nd \<in> set country_data. \<forall>y \<in> set (index (combine_countries_to_df country_data)).
            cell (combine_countries_to_df country_data) (fst nd) y
              = Some (case map_of (snd nd) y of
                        Some r \<Rightarrow> fmul (buffett r) (Fin 100)
                      | None \<Rightarrow> NaN))"
proof -
  let ?t = "combine_countries_to_df country_data"
  have idx: "index ?t = sort (remdups (concat (map (\<lambda>nd. map fst (snd nd)) country_data)))"
    by (rule combine_index [OF assms(1)])
  have cols: "columns ?t = map (\<lambda>nd. (fst nd, map (reindex (percent (snd nd))) (index ?t))) country_data"
    by (rule combine_columns [OF assms(1)])
  have s: "sorted (index ?t)" and d: "distinct (index ?t)"
    by (simp_all add: idx)
  have u: "set (index ?t) = (\<Union>df \<in> snd ` set country_data. fst ` set df)"
    by (auto simp: idx)
  have n: "map fst (columns ?t) = map fst country_data"
    by (simp add: cols comp_def)
  have c: "cell ?t (fst nd) y
              = Some (case map_of (snd nd) y of
                        Some r \<Rightarrow> fmul (buffett r) (Fin 100)
                      | None \<Rightarrow> NaN)"
    if nd: "nd \<in> set country_data" and y: "y \<in> set (index ?t)" for nd y
  proof -
    have "map_of country_data (fst nd) = Some (snd nd)"
      using nd assms(2) by (simp add: map_of_eq_Some_iff)
    then have "map_of (columns ?t) (fst nd) = Some (map (reindex (percent (snd nd))) (index ?t))"
      using map_of_map_snd [of "\<lambda>df. map (reindex (percent df)) (index ?t)" country_data]
      by (simp add: cols)
    then have "cell ?t (fst nd) y = Some (reindex (percent (snd nd)) y)"
      using y by (simp add: cell_def map_of_zip_map)
    then show ?thesis by (simp add: reindex_percent)
  qed
  from s d u n c show ?thesis by blast
qed

theorem combine_outer_join_witness:
  "[(''A'', [(2019, \<lparr>market_cap = Fin 1, gdp = Fin 2, buffett = Fin (1/2)\<rparr>),
             (2020, \<lparr>market_cap = Fin 3, gdp = Fin 2, buffett = Fin (3/2)\<rparr>)]),
    (''B'', [(2020, \<lparr>market_cap = Fin 1, gdp = Fin 1, buffett = Fin 1\<rparr>),
             (2021, \<lparr>market_cap = Fin 2, gdp = Fin 1, buffett = Fin 2\<rparr>)])] \<noteq> [] \<and>
   distinct (map fst
     [(''A'', [(2019::int, \<lparr>market_cap = Fin 1, gdp = Fin 2, buffett = Fin (1/2)\<rparr>),
               (2020, \<lparr>market_cap = Fin 3, gdp = Fin 2, buffett = Fin (3/2)\<rparr>)]),
      (''B'', [(2020, \<lparr>market_cap = Fin 1, gdp = Fin 1, buffett = Fin 1\<rparr>),
               (2021, \<lparr>market_cap = Fin 2, gdp = Fin 1, buffett = Fin 2\<rparr>)])]) \<and>
   combine_countries_to_df
     [(''A'', [(2019, \<lparr>market_cap = Fin 1, gdp = Fin 2, buffett = Fin (1/2)\<rparr>),
               (2020, \<lparr>market_cap = Fin 3, gdp = Fin 2, buffett = Fin (3/2)\<rparr>)]),
      (''B'', [(2020, \<lparr>market_cap = Fin 1, gdp = Fin 1, buffett = Fin 1\<rparr>),
               (2021, \<lparr>market_cap = Fin 2, gdp = Fin 1, buffett = Fin 2\<rparr>)])]
     = \<lparr>index = [2019, 2020, 2021],
        columns = [(''A'', [Fin 50, Fin 150, NaN]), (''B'', [NaN, Fin 100, Fin 200])]\<rparr> \<and>
   cell \<lparr>index = [2019, 2020, 2021],
         columns = [(''A'', [Fin 50, Fin 150, NaN]), (''B'', [NaN, Fin 100, Fin 200])]\<rparr>
     ''A'' 2019 = Some (Fin 50) \<and>
   cell \<lparr>index = [2019, 2020, 2021],
         columns = [(''A'', [Fin 50, Fin 150, NaN]), (''B'', [NaN, Fin 100, Fin 200])]\<rparr>
     ''B'' 2019 = Some NaN \<and>
   cell \<lparr>index = [2019, 2020, 2021],
         columns = [(''A'', [Fin 50, Fin 150, NaN]), (''B'', [NaN, Fin 100, Fin 200])]\<rparr>
     ''A'' 2021 = Some NaN"
proof -
  let ?cd = "[(''A'', [(2019::int, \<lparr>market_cap = Fin 1, gdp = Fin 2, buffett = Fin (1/2)\<rparr>),
                      (2020, \<lparr>market_cap = Fin 3, gdp = Fin 2, buffett = Fin (3/2)\<rparr>)]),
             (''B'', [(2020, \<lparr>market_cap = Fin 1, gdp = Fin 1, buffett = Fin 1\<rparr>),
                      (2021, \<lparr>market_cap = Fin 2, gdp = Fin 1, buffett = Fin 2\<rparr>)])]"
  have a: "?cd \<noteq> []" by simp
  have b: "distinct (map fst ?cd)" by simp
  have c: "\<forall>nd \<in> set ?cd. distinct (map fst (snd nd))" by simp
  have eq: "combine_countries_to_df ?cd
     = \<lparr>index = [2019, 2020, 2021],
        columns = [(''A'', [Fin 50, Fin 150, NaN]), (''B'', [NaN, Fin 100, Fin 200])]\<rparr>"
    by (simp add: combine_countries_to_df_def percent_def reindex_def fmul_def is_inf_def
        is_zero_def)
  show ?thesis
    using a b eq combine_outer_join [OF a b c] by (simp add: cell_def)
qed

text \<open>
  Claim C7. On the empty dict \<open>combine_countries_to_df\<close> returns the empty table, with no
  rows and no columns; the function has no error result.
\<close>

theorem combine_empty:
  "combine_countries_to_df [] = \<lparr>index = [], columns = []\<rparr> \<and>
   index (combine_countries_to_df []) = [] \<and> columns (combine_countries_to_df []) = []"
  by (simp add: combine_countries_to_df_def)

section \<open>Properties of the missing-year handling\<close>

lemma prev_valid_None:
  assumes "\<forall>j<i. xs ! j = NaN"
  shows "prev_valid xs i = None"
proof -
  have "filter (\<lambda>j. xs ! j \<noteq> NaN) (rev [0..<i]) = []"
    using assms by (simp add: filter_empty_conv)
  then show ?thesis by (simp add: prev_valid_def)
qed

lemma prev_valid_Some:
  assumes "j < i" and "xs ! j \<noteq> NaN" and "\<forall>m. j < m \<and> m < i \<longrightarrow> xs ! m = NaN"
  shows "prev_valid xs i = Some j"
proof -
  have "[0..<i] = [0..<j] @ [j..<i]"
    using upt_add_eq_append [of 0 j "i - j"] assms(1) by simp
  moreover have "[j..<i] = j # [Suc j..<i]"
    using assms(1) by (simp add: upt_conv_Cons)
  ultimately have split: "[0..<i] = [0..<j] @ j # [Suc j..<i]" by simp
  have "filter (\<lambda>m. xs ! m \<noteq> NaN) [Suc j..<i] = []"
    using assms(3) by (simp add: filter_empty_conv)
  then have "filter (\<lambda>m. xs ! m \<noteq> NaN) (rev [0..<i])
      = j # filter (\<lambda>m. xs ! m \<noteq> NaN) (rev [0..<j])"
    using assms(2) by (simp add: split flip: rev_filter)
  then show ?thesis by (simp add: prev_valid_def)
qed

lemma next_valid_None:
  assumes "\<forall>m. i < m \<and> m < length xs \<longrightarrow> xs ! m = NaN"
  shows "next_valid xs i = None"
proof -
  have "filter (\<lambda>j. xs ! j \<noteq> NaN) [Suc i..<length xs] = []"
    using assms by (simp add: filter_empty_conv)
  then show ?thesis by (simp add: next_valid_def)
qed

lemma next_valid_Some:
  assumes "i < k" and "k < length xs" and "xs ! k \<noteq> NaN"
    and "\<forall>m. i < m \<and> m < k \<longrightarrow> xs ! m = NaN"
  shows "next_valid xs i = Some k"
proof -
  have "[Suc i..<length xs] = [Suc i..<k] @ [k..<length xs]"
    using upt_add_eq_append [of "Suc i" k "length xs - k"] assms(1,2) by simp
  moreover have "[k..<length xs] = k # [Suc k..<length xs]"
    using assms(2) by (simp add: upt_conv_Cons)
  ultimately have split: "[Suc i..<length xs] = [Suc i..<k] @ k # [Suc k..<length xs]" by simp
  have "filter (\<lambda>m. xs ! m \<noteq> NaN) [Suc i..<k] = []"
    using assms(4) by (simp add: filter_empty_conv)
  then show ?thesis
    using assms(3) by (simp add: next_valid_def split)
qed

lemma fadd_Fin: "fadd (Fin x) (Fin y) = Fin (x + y)"
  by (simp add: fadd_def is_inf_def)

lemma fsub_Fin: "fsub (Fin x) (Fin y) = Fin (x - y)"
  by (simp add: fsub_def fadd_def is_inf_def)

lemma fdiv_Fin_pos: "0 < d \<Longrightarrow> fdiv (Fin x) (Fin d) = Fin (x / d)"
  by (cases "x = 0") (simp_all add: fdiv_def is_inf_def is_zero_def zero_of_def)

lemma fmul_Fin_pos: "0 < d \<Longrightarrow> fmul (Fin x) (Fin d) = Fin (x * d)"
  by (cases "x = 0") (simp_all add: fmul_def is_inf_def is_zero_def zero_of_def)

lemma np_interp_point_finite:
  assumes "j < i" and "i < k"
  shows "np_interp_point j (Fin a) k (Fin b) i
           = Fin (a + (b - a) * (real i - real j) / (real k - real j))"
proof -
  have kj: "0 < real k - real j" and ij: "0 < real i - real j"
    using assms by simp_all
  have slope: "fdiv (fsub (Fin b) (Fin a)) (Fin (real k - real j))
      = Fin ((b - a) / (real k - real j))"
    by (simp only: fsub_Fin fdiv_Fin_pos [OF kj])
  have r: "fadd (fmul (Fin ((b - a) / (real k - real j))) (Fin (real i - real j))) (Fin a)
      = Fin ((b - a) / (real k - real j) * (real i - real j) + a)"
    by (simp only: fmul_Fin_pos [OF ij] fadd_Fin)
  have "np_interp_point j (Fin a) k (Fin b) i
      = Fin ((b - a) / (real k - real j) * (real i - real j) + a)"
    unfolding np_interp_point_def slope Let_def r by simp
  then show ?thesis by (simp add: algebra_simps)
qed

lemma interpolate_linear_nth:
  "i < length xs \<Longrightarrow> interpolate_linear xs ! i = interp_at xs i"
  by (simp add: interpolate_linear_def)

lemma handle_missing_interpolate:
  "handle_missing ''Interpolate (linear)'' t
     = t\<lparr>columns := map (\<lambda>nc. (fst nc, interpolate_linear (snd nc))) (columns t)\<rparr>"
  by (simp add: handle_missing_def)

lemmas interp_eval =
  handle_missing_def interpolate_linear_def interp_at_def prev_valid_def next_valid_def
  np_interp_point_def fsub_def fadd_def fdiv_def fmul_def feq_def is_inf_def is_zero_def
  zero_of_def inf_of_def Let_def

text \<open>
  Claim C3, as the code has it. The claim says that a trailing gap is left absent. The
  code calls \<open>interpolate(method="linear")\<close> with the defaults of pandas, which fill
  forward. Per column of the combined table, each on its own: a present cell is kept;
  an absent cell with no present cell above it (a leading gap) stays absent; an absent
  cell with a present cell above it and none below it (a trailing gap) takes the last
  present value of the column; and an absent cell between two nearest present cells
  with finite values is filled by the straight line between them over the row
  positions, which is the line over the years when the rows are consecutive years
  (15.0 at 2020 for 10 at 2019 and 20 at 2021).
\<close>

theorem interpolate_linear_fills:
  assumes "c < length (columns t)"
    and "xs = snd (columns t ! c)"
    and "ys = snd (columns (handle_missing ''Interpolate (linear)'' t) ! c)"
    and "i < length xs"
  shows "length ys = length xs \<and>
         (xs ! i \<noteq> NaN \<longrightarrow> ys ! i = xs ! i) \<and>
         (xs ! i = NaN \<and> (\<forall>j<i. xs ! j = NaN) \<longrightarrow> ys ! i = NaN) \<and>
         (\<forall>j. xs ! i = NaN \<and> j < i \<and> xs ! j \<noteq> NaN \<and>
               (\<forall>m. j < m \<and> m < length xs \<longrightarrow> xs ! m = NaN)
               \<longrightarrow> ys ! i = xs ! j) \<and>
         (\<forall>j k a b. j < i \<and> i < k \<and> k < length xs \<and> xs ! j = Fin a \<and> xs ! k = Fin b \<and>
               (\<forall>m. j < m \<and> m < k \<longrightarrow> xs ! m = NaN)
               \<longrightarrow> ys ! i = Fin (a + (b - a) * (real i - real j) / (real k - real j)))"
proof -
  have ys: "ys = interpolate_linear xs"
    using assms(1,2,3) by (simp add: handle_missing_interpolate)
  have len: "length ys = length xs"
    by (simp add: ys interpolate_linear_def)
  have at: "ys ! i = interp_at xs i"
    using assms(4) by (simp add: ys interpolate_linear_nth)
  have kept: "ys ! i = xs ! i" if "xs ! i \<noteq> NaN"
    using that by (simp add: at interp_at_def)
  have leading: "ys ! i = NaN" if "xs ! i = NaN" "\<forall>j<i. xs ! j = NaN"
    using that by (simp add: at interp_at_def prev_valid_None)
  have trailing: "ys ! i = xs ! j"
    if "xs ! i = NaN" "j < i" "xs ! j \<noteq> NaN" "\<forall>m. j < m \<and> m < length xs \<longrightarrow> xs ! m = NaN" for j
  proof -
    have "prev_valid xs i = Some j"
      using that(2,3,4) assms(4) by (intro prev_valid_Some) auto
    moreover have "next_valid xs i = None"
      using that(2,4) by (intro next_valid_None) auto
    ultimately show ?thesis using that(1) by (simp add: at interp_at_def)
  qed
  have inner: "ys ! i = Fin (a + (b - a) * (real i - real j) / (real k - real j))"
    if "j < i" "i < k" "k < length xs" "xs ! j = Fin a" "xs ! k = Fin b"
      "\<forall>m. j < m \<and> m < k \<longrightarrow> xs ! m = NaN" for j k a b
  proof -
    have nan: "xs ! i = NaN" using that(1,2,6) by simp
    have "prev_valid xs i = Some j"
      using that(1,2,4,6) by (intro prev_valid_Some) auto
    moreover have "next_valid xs i = Some k"
      using that(1,2,3,5,6) by (intro next_valid_Some) auto
    ultimately have "ys ! i = np_interp_point j (Fin a) k (Fin b) i"
      using nan that(4,5) by (simp add: at interp_at_def)
    then show ?thesis by (simp add: np_interp_point_finite [OF that(1,2)])
  qed
  from len kept leading trailing inner show ?thesis by blast
qed

theorem interpolate_linear_fills_witness:
  "(0::nat) < length (columns \<lparr>index = [2018, 2019, 2020, 2021],
                               columns = [(''A'', [NaN, Fin 10, NaN, Fin 20])]\<rparr>) \<and>
   snd (columns (handle_missing ''Interpolate (linear)''
                   \<lparr>index = [2018, 2019, 2020, 2021],
                    columns = [(''A'', [NaN, Fin 10, NaN, Fin 20])]\<rparr>) ! 0)
     = [NaN, Fin 10, Fin 15, Fin 20] \<and>
   (2::nat) < length [NaN, Fin 10, NaN, Fin 20] \<and>
   [NaN, Fin 10, Fin 15, Fin 20] ! 2 = Fin 15 \<and>
   [NaN, Fin 10, Fin 15, Fin 20] ! 0 = NaN"
proof -
  let ?t = "\<lparr>index = [2018, 2019, 2020, 2021], columns = [(''A'', [NaN, Fin 10, NaN, Fin 20])]\<rparr>"
  have a: "(0::nat) < length (columns ?t)" by simp
  have b: "[NaN, Fin 10, NaN, Fin 20] = snd (columns ?t ! 0)" by simp
  have c: "[NaN, Fin 10, Fin 15, Fin 20]
      = snd (columns (handle_missing ''Interpolate (linear)'' ?t) ! 0)"
    by (simp add: interp_eval upt_rec_numeral)
  have d: "(2::nat) < length [NaN, Fin 10, NaN, Fin 20]" by simp
  show ?thesis
    using a c [symmetric] d interpolate_linear_fills [OF a b c d] by simp
qed

text \<open>
  Claim C3 fails on the code at a trailing gap: the column with 10 at 2019 and no value
  at 2020 comes back with 10 at 2020.
\<close>

theorem trailing_gap_counterexample:
  "handle_missing ''Interpolate (linear)''
       \<lparr>index = [2019, 2020], columns = [(''A'', [Fin 10, NaN])]\<rparr>
     = \<lparr>index = [2019, 2020], columns = [(''A'', [Fin 10, Fin 10])]\<rparr> \<and>
   Fin 10 \<noteq> NaN"
  by (simp add: interp_eval)

end
